theory Spec2Isabelle
  imports Main "HOL-Library.Sublist"
begin

section \<open>Python strings\<close>

text \<open>
  A Python \<open>str\<close> is a sequence of Unicode code points. The prompt template of
  \<open>app.py\<close> contains U+2011 and \<open>str.strip\<close> removes Unicode white space, so a
  string is modelled as the list of its code points rather than as a list of bytes.
\<close>

type_synonym ustr = "nat list"

definition u :: "string \<Rightarrow> ustr" where
  \<comment> \<open>an ASCII literal as a Python string\<close>
  "u s = map of_char s"

abbreviation NL :: nat where "NL \<equiv> 10"
abbreviation SP :: nat where "SP \<equiv> 32"
abbreviation TAB :: nat where "TAB \<equiv> 9"

fun join :: "ustr \<Rightarrow> ustr list \<Rightarrow> ustr" where
  \<comment> \<open>\<open>sep.join(xs)\<close>\<close>
  "join sep [] = []"
| "join sep [x] = x"
| "join sep (x # y # ys) = x @ sep @ join sep (y # ys)"

fun split_lines :: "ustr \<Rightarrow> ustr list" where
  \<comment> \<open>\<open>text.split('\n')\<close>: the lines that the multi-line regular expressions of
      \<open>textwrap\<close> see between \<open>^\<close> and \<open>$\<close>\<close>
  "split_lines [] = [[]]"
| "split_lines (c # cs) =
     (if c = NL then [] # split_lines cs
      else (case split_lines cs of [] \<Rightarrow> [[c]] | l # ls \<Rightarrow> (c # l) # ls))"

definition isspace :: "nat \<Rightarrow> bool" where
  \<comment> \<open>\<open>str.isspace\<close> on one code point: the characters \<open>str.strip()\<close> removes\<close>
  "isspace c \<longleftrightarrow>
     (9 \<le> c \<and> c \<le> 13) \<or> (28 \<le> c \<and> c \<le> 32) \<or> c = 0x85 \<or> c = 0xA0 \<or> c = 0x1680 \<or>
     (0x2000 \<le> c \<and> c \<le> 0x200A) \<or> c = 0x2028 \<or> c = 0x2029 \<or> c = 0x202F \<or>
     c = 0x205F \<or> c = 0x3000"

definition strip :: "ustr \<Rightarrow> ustr" where
  \<comment> \<open>\<open>s.strip()\<close>\<close>
  "strip s = rev (dropWhile isspace (rev (dropWhile isspace s)))"

section \<open>textwrap.dedent\<close>

text \<open>
  \<open>textwrap.dedent\<close> of the standard library, as \<open>app.py\<close> calls it:
  \<^verbatim>\<open>
  _whitespace_only_re = re.compile('^[ \t]+$', re.MULTILINE)
  _leading_whitespace_re = re.compile('(^[ \t]*)(?:[^ \t\n])', re.MULTILINE)

  def dedent(text):
      margin = None
      text = _whitespace_only_re.sub('', text)
      indents = _leading_whitespace_re.findall(text)
      for indent in indents:
          if margin is None:
              margin = indent
          elif indent.startswith(margin):
              pass
          elif margin.startswith(indent):
              margin = indent
          else:
              for i, (x, y) in enumerate(zip(margin, indent)):
                  if x != y:
                      margin = margin[:i]
                      break
      if margin:
          text = re.sub(r'(?m)^' + margin, '', text)
      return text
  \<close>
  Both regular expressions are anchored at \<open>^\<close> in multi-line mode and match no
  newline, so each works on one line of the text at a time; the model applies them to
  the lines of \<open>split_lines\<close> and joins the lines again.
\<close>

definition is_indent_char :: "nat \<Rightarrow> bool" where
  \<comment> \<open>the character class \<open>[ \t]\<close>\<close>
  "is_indent_char c \<longleftrightarrow> c = SP \<or> c = TAB"

definition blank_whitespace_only :: "ustr \<Rightarrow> ustr" where
  \<comment> \<open>\<open>_whitespace_only_re.sub('', text)\<close> on one line: \<open>^[ \t]+$\<close> becomes empty\<close>
  "blank_whitespace_only l = (if l \<noteq> [] \<and> list_all is_indent_char l then [] else l)"

definition indents :: "ustr list \<Rightarrow> ustr list" where
  \<comment> \<open>\<open>_leading_whitespace_re.findall(text)\<close>: one match for each line that has a
      character outside \<open>[ \t]\<close>, capturing the spaces and tabs before it\<close>
  "indents ls = map (takeWhile is_indent_char) (filter (\<lambda>l. \<not> list_all is_indent_char l) ls)"

fun trim_margin :: "ustr \<Rightarrow> ustr \<Rightarrow> ustr" where
  \<comment> \<open>the inner loop: \<open>margin[:i]\<close> at the first \<open>i\<close> where margin and indent differ,
      the margin unchanged when \<open>zip\<close> ends first\<close>
  "trim_margin (x # xs) (y # ys) = (if x \<noteq> y then [] else x # trim_margin xs ys)"
| "trim_margin margin indent = margin"

fun margin_step :: "ustr option \<Rightarrow> ustr \<Rightarrow> ustr option" where
  \<comment> \<open>one iteration of \<open>for indent in indents\<close>\<close>
  "margin_step None indent = Some indent"
| "margin_step (Some margin) indent =
     (if prefix margin indent then Some margin
      else if prefix indent margin then Some indent
      else Some (trim_margin margin indent))"

definition find_margin :: "ustr list \<Rightarrow> ustr option" where
  "find_margin inds = foldl margin_step None inds"

definition remove_margin :: "ustr \<Rightarrow> ustr \<Rightarrow> ustr" where
  \<comment> \<open>\<open>re.sub(r'(?m)^' + margin, '', text)\<close> on one line\<close>
  "remove_margin margin l = (if prefix margin l then drop (length margin) l else l)"

definition dedent :: "ustr \<Rightarrow> ustr" where
  "dedent text =
     (let ls = map blank_whitespace_only (split_lines text) in
      case find_margin (indents ls) of
        None \<Rightarrow> join [NL] ls
      | Some margin \<Rightarrow>
          if margin \<noteq> [] then join [NL] (map (remove_margin margin) ls)
          else join [NL] ls)"

section \<open>Exceptions\<close>

datatype error =
    ProviderError ustr    \<comment> \<open>an exception raised by an OpenAI or Pinecone client call, with its \<open>str()\<close>\<close>
  | IndexError            \<comment> \<open>\<open>xs[0]\<close> on an empty list\<close>
  | AttributeError        \<comment> \<open>\<open>None.get\<close>, \<open>None.strip\<close>\<close>
  | TypeError             \<comment> \<open>\<open>join\<close> on an item that is no \<open>str\<close>; \<open>int\<close> on \<open>None\<close>, a list, a table, a date\<close>
  | ValueError            \<comment> \<open>\<open>int\<close> on a string that it does not read, or on a NaN\<close>
  | OverflowError         \<comment> \<open>\<open>int\<close> on an infinite float\<close>
  | SecretNotFoundError   \<comment> \<open>\<open>st.secrets\<close> read when no secrets file exists\<close>
  | NumberBoundsError     \<comment> \<open>Streamlit's exception for a number beyond what JavaScript holds exactly\<close>

section \<open>Context block and prompt (step 3 of \<open>ask\<close>)\<close>

datatype meta_value =
    MStr ustr   \<comment> \<open>a metadata value that is a \<open>str\<close>\<close>
  | MOther      \<comment> \<open>any other metadata value: a number, a boolean, a list of strings\<close>

record retrieved_match =
  match_id :: ustr
  metadata :: "(ustr \<rightharpoonup> meta_value) option"
    \<comment> \<open>\<open>m.metadata\<close>: the metadata mapping, or \<open>None\<close> for a vector stored without
        metadata\<close>

definition dict_get :: "('k \<rightharpoonup> 'v) \<Rightarrow> 'k \<Rightarrow> 'v \<Rightarrow> 'v" where
  \<comment> \<open>\<open>d.get(key, default)\<close>\<close>
  "dict_get d k dflt = (case d k of None \<Rightarrow> dflt | Some v \<Rightarrow> v)"

definition context_separator :: ustr where
  \<comment> \<open>\<open>"\n\n---\n\n"\<close>\<close>
  "context_separator = [NL, NL] @ u ''---'' @ [NL, NL]"

fun context_chunks :: "retrieved_match list \<Rightarrow> error + meta_value list" where
  \<comment> \<open>\<open>[m.metadata.get("text", "") for m in res.matches]\<close>: the comprehension stops at
      the first match whose \<open>metadata\<close> is \<open>None\<close>\<close>
  "context_chunks [] = Inr []"
| "context_chunks (m # ms) =
     (case metadata m of
        None \<Rightarrow> Inl AttributeError
      | Some d \<Rightarrow>
          (case context_chunks ms of
             Inl e \<Rightarrow> Inl e
           | Inr cs \<Rightarrow> Inr (dict_get d (u ''text'') (MStr []) # cs)))"

fun str_items :: "meta_value list \<Rightarrow> error + ustr list" where
  \<comment> \<open>\<open>str.join\<close> takes items of type \<open>str\<close> only\<close>
  "str_items [] = Inr []"
| "str_items (MStr s # vs) =
     (case str_items vs of Inl e \<Rightarrow> Inl e | Inr ss \<Rightarrow> Inr (s # ss))"
| "str_items (MOther # vs) = Inl TypeError"

definition py_join :: "ustr \<Rightarrow> meta_value list \<Rightarrow> error + ustr" where
  \<comment> \<open>\<open>sep.join(items)\<close> on a list of Python values\<close>
  "py_join sep vs = (case str_items vs of Inl e \<Rightarrow> Inl e | Inr ss \<Rightarrow> Inr (join sep ss))"

definition context_text :: "retrieved_match list \<Rightarrow> error + ustr" where
  \<comment> \<open>lines 51 and 52\<close>
  "context_text matches =
     (case context_chunks matches of
        Inl e \<Rightarrow> Inl e
      | Inr chunks \<Rightarrow> py_join context_separator chunks)"

definition prompt_fstring :: "ustr \<Rightarrow> ustr \<Rightarrow> ustr" where
  \<comment> \<open>the f-string of \<open>ask\<close>, after interpolation and before \<open>textwrap.dedent\<close>\<close>
  "prompt_fstring ctx question =
     [NL] @
     u ''        You are Pipe'' @ [0x2011] @ u ''Spec Assistant.'' @ [NL] @
     u ''        Answer the user's question **only** with information in the context.'' @ [NL] @
     u ''        Try to give the best answer possible. If you really don't know say you don't know, but still try to provide some value.'' @ [NL] @
     [NL] @
     u ''        ### Context'' @ [NL] @
     u ''        '' @ ctx @ [NL] @
     [NL] @
     u ''        ### Question'' @ [NL] @
     u ''        '' @ question @ [NL] @
     [NL] @
     u ''        ### Answer'' @ [NL] @
     u ''    ''"

definition build_prompt :: "ustr \<Rightarrow> ustr \<Rightarrow> ustr" where
  "build_prompt ctx question = dedent (prompt_fstring ctx question)"

section \<open>Configuration (module level of \<open>app.py\<close>)\<close>

datatype py_float =
    Finite int int   \<comment> \<open>the float of value \<open>m * 2 ^ e\<close>, as \<open>Finite m e\<close>\<close>
  | Infinite         \<comment> \<open>\<open>inf\<close> and \<open>-inf\<close>\<close>
  | NaN

datatype cfg_value =
    VStr ustr        \<comment> \<open>a string: every environment variable, and a TOML string\<close>
  | VInt int         \<comment> \<open>a TOML integer, and the default \<open>20\<close>\<close>
  | VBool bool       \<comment> \<open>a TOML boolean\<close>
  | VFloat py_float  \<comment> \<open>a TOML float\<close>
  | VOther bool      \<comment> \<open>a TOML date or time, array or table, with its truth value\<close>

record sources =
  secrets :: "(ustr \<rightharpoonup> cfg_value) option"
    \<comment> \<open>\<open>st.secrets\<close>: the keys of the secrets file, \<open>None\<close> when no secrets file is found\<close>
  environ :: "ustr \<rightharpoonup> ustr"
    \<comment> \<open>\<open>os.environ\<close>\<close>

definition getenv :: "sources \<Rightarrow> ustr \<Rightarrow> cfg_value option \<Rightarrow> cfg_value option" where
  \<comment> \<open>\<open>os.getenv(key, default)\<close>; \<open>None\<close> is Python's \<open>None\<close>\<close>
  "getenv src k dflt = (case environ src k of None \<Rightarrow> dflt | Some v \<Rightarrow> Some (VStr v))"

definition secrets_get :: "sources \<Rightarrow> ustr \<Rightarrow> cfg_value option \<Rightarrow> error + cfg_value option" where
  \<comment> \<open>\<open>st.secrets.get(key, default)\<close>: the default stands in for a missing key only;
      without a secrets file the lookup raises\<close>
  "secrets_get src k dflt =
     (case secrets src of
        None \<Rightarrow> Inl SecretNotFoundError
      | Some file \<Rightarrow> Inr (case file k of None \<Rightarrow> dflt | Some v \<Rightarrow> Some v))"

definition resolve :: "sources \<Rightarrow> ustr \<Rightarrow> cfg_value option \<Rightarrow> error + cfg_value option" where
  \<comment> \<open>\<open>st.secrets.get(key, os.getenv(key, default))\<close>\<close>
  "resolve src k dflt = secrets_get src k (getenv src k dflt)"

definition float_trunc :: "int \<Rightarrow> int \<Rightarrow> int" where
  \<comment> \<open>\<open>m * 2 ^ e\<close> rounded towards zero\<close>
  "float_trunc m e =
     (if 0 \<le> e then m * 2 ^ nat e
      else if 0 \<le> m then m div 2 ^ nat (- e)
      else - ((- m) div 2 ^ nat (- e)))"

fun py_int :: "(ustr \<Rightarrow> error + int) \<Rightarrow> cfg_value option \<Rightarrow> error + int" where
  \<comment> \<open>\<open>int(x)\<close>. What \<open>int\<close> reads from a string (white space, the decimal digits of
      Unicode, underscores, the limit on the number of digits) is the interpreter's and
      differs between its versions: it is the parameter \<open>int_str\<close>.\<close>
  "py_int int_str None = Inl TypeError"
| "py_int int_str (Some (VStr s)) = int_str s"
| "py_int int_str (Some (VInt i)) = Inr i"
| "py_int int_str (Some (VBool b)) = Inr (if b then 1 else 0)"
| "py_int int_str (Some (VFloat (Finite m e))) = Inr (float_trunc m e)"
| "py_int int_str (Some (VFloat Infinite)) = Inl OverflowError"
| "py_int int_str (Some (VFloat NaN)) = Inl ValueError"
| "py_int int_str (Some (VOther t)) = Inl TypeError"

fun truthy :: "cfg_value option \<Rightarrow> bool" where
  \<comment> \<open>the truth value that Python's \<open>not\<close> tests\<close>
  "truthy None = False"
| "truthy (Some (VStr s)) = (s \<noteq> [])"
| "truthy (Some (VInt i)) = (i \<noteq> 0)"
| "truthy (Some (VBool b)) = b"
| "truthy (Some (VFloat (Finite m e))) = (m \<noteq> 0)"
| "truthy (Some (VFloat Infinite)) = True"
| "truthy (Some (VFloat NaN)) = True"
| "truthy (Some (VOther t)) = t"

record config =
  PINECONE_API_KEY :: "cfg_value option"
  OPENAI_API_KEY :: "cfg_value option"
  INDEX_NAME :: "cfg_value option"
  NAMESPACE :: "cfg_value option"
  EMBED_MODEL :: "cfg_value option"
  TOP_K :: int

definition load_config :: "(ustr \<Rightarrow> error + int) \<Rightarrow> sources \<Rightarrow> error + config" where
  \<comment> \<open>lines 11 to 16, in their order\<close>
  "load_config int_str src =
     (case resolve src (u ''PINECONE_API_KEY'') None of
        Inl e \<Rightarrow> Inl e
      | Inr pinecone_key \<Rightarrow>
     (case resolve src (u ''OPENAI_API_KEY'') None of
        Inl e \<Rightarrow> Inl e
      | Inr openai_key \<Rightarrow>
     (case resolve src (u ''INDEX_NAME'') (Some (VStr (u ''aquestia''))) of
        Inl e \<Rightarrow> Inl e
      | Inr index_name \<Rightarrow>
     (case resolve src (u ''NAMESPACE'') (Some (VStr (u ''v1''))) of
        Inl e \<Rightarrow> Inl e
      | Inr namespace \<Rightarrow>
     (case resolve src (u ''EMBED_MODEL'') (Some (VStr (u ''text-embedding-3-large''))) of
        Inl e \<Rightarrow> Inl e
      | Inr embed_model \<Rightarrow>
     (case resolve src (u ''TOP_K'') (Some (VInt 20)) of
        Inl e \<Rightarrow> Inl e
      | Inr top_k \<Rightarrow>
     (case py_int int_str top_k of
        Inl e \<Rightarrow> Inl e
      | Inr k \<Rightarrow>
          Inr \<lparr> PINECONE_API_KEY = pinecone_key, OPENAI_API_KEY = openai_key,
                INDEX_NAME = index_name, NAMESPACE = namespace, EMBED_MODEL = embed_model,
                TOP_K = k \<rparr>)))))))"

datatype startup_event =
    StError ustr                     \<comment> \<open>\<open>st.error(message)\<close>\<close>
  | StStop                           \<comment> \<open>\<open>st.stop()\<close>\<close>
  | NewPinecone "cfg_value option"   \<comment> \<open>\<open>Pinecone(api_key=...)\<close>\<close>
  | NewIndex "cfg_value option"      \<comment> \<open>\<open>pc.Index(INDEX_NAME)\<close>\<close>
  | NewOpenAI "cfg_value option"     \<comment> \<open>\<open>OpenAI(api_key=...)\<close>\<close>

datatype halt =
    Stopped          \<comment> \<open>the script run ended by \<open>st.stop()\<close>\<close>
  | Uncaught error   \<comment> \<open>the script run ended by an exception, which Streamlit shows\<close>

definition missing_keys_message :: ustr where
  "missing_keys_message =
     [0x26A0, 0xFE0F] @
     u ''  Missing API keys for Pinecone and/or OpenAI. Add them to Streamlit secrets or environment variables and restart the app.''"

definition startup :: "(ustr \<Rightarrow> error + int) \<Rightarrow> sources \<Rightarrow> startup_event list \<times> (halt + config)" where
  \<comment> \<open>lines 11 to 27: what the module does before \<open>main\<close> runs, with the calls it makes\<close>
  "startup int_str src =
     (case load_config int_str src of
        Inl e \<Rightarrow> ([], Inl (Uncaught e))
      | Inr cfg \<Rightarrow>
          if \<not> truthy (PINECONE_API_KEY cfg) \<or> \<not> truthy (OPENAI_API_KEY cfg)
          then ([StError missing_keys_message, StStop], Inl Stopped)
          else ([NewPinecone (PINECONE_API_KEY cfg), NewIndex (INDEX_NAME cfg),
                 NewOpenAI (OPENAI_API_KEY cfg)], Inr cfg))"

fun is_client_construction :: "startup_event \<Rightarrow> bool" where
  "is_client_construction (StError _) = False"
| "is_client_construction StStop = False"
| "is_client_construction (NewPinecone _) = True"
| "is_client_construction (NewIndex _) = True"
| "is_client_construction (NewOpenAI _) = True"

section \<open>The pipeline: \<open>ask\<close>\<close>

text \<open>
  The three clients are outside the program. Each is a function from the arguments of
  the call to the exception it raises or the part of the response that \<open>ask\<close> reads.
  The embedding vector is opaque to \<open>ask\<close>, so its type is a parameter.
\<close>

record 'v providers =
  embeddings_create :: "cfg_value option \<Rightarrow> ustr \<Rightarrow> error + 'v list"
    \<comment> \<open>\<open>client.embeddings.create(model, input)\<close>: the embeddings of \<open>.data\<close>\<close>
  index_query :: "'v \<Rightarrow> int \<Rightarrow> cfg_value option \<Rightarrow> bool \<Rightarrow> error + retrieved_match list"
    \<comment> \<open>\<open>index.query(vector, top_k, namespace, include_metadata)\<close>: \<open>.matches\<close>\<close>
  chat_completions_create :: "ustr \<Rightarrow> ustr \<Rightarrow> int \<Rightarrow> error + ustr option list"
    \<comment> \<open>\<open>client.chat.completions.create(model, messages, temperature)\<close> with the content of
        the one user message: the \<open>.message.content\<close> of each of \<open>.choices\<close>\<close>

datatype 'v call =
    EmbedCall "cfg_value option" ustr
  | SearchCall 'v int "cfg_value option" bool
  | GenerateCall ustr ustr int

definition ask :: "'v providers \<Rightarrow> config \<Rightarrow> ustr \<Rightarrow> 'v call list \<times> (error + ustr)" where
  \<comment> \<open>the outbound calls made, in order, and the exception raised or the answer returned\<close>
  "ask P cfg question =
     (let c1 = EmbedCall (EMBED_MODEL cfg) question in
      case embeddings_create P (EMBED_MODEL cfg) question of
        Inl e \<Rightarrow> ([c1], Inl e)
      | Inr [] \<Rightarrow> ([c1], Inl IndexError)
      | Inr (q_vec # _) \<Rightarrow>
          (let c2 = SearchCall q_vec (TOP_K cfg) (NAMESPACE cfg) True in
           case index_query P q_vec (TOP_K cfg) (NAMESPACE cfg) True of
             Inl e \<Rightarrow> ([c1, c2], Inl e)
           | Inr matches \<Rightarrow>
               (case context_text matches of
                  Inl e \<Rightarrow> ([c1, c2], Inl e)
                | Inr ctx \<Rightarrow>
                    (let prompt = build_prompt ctx question;
                         c3 = GenerateCall (u ''gpt-4o'') prompt 0 in
                     case chat_completions_create P (u ''gpt-4o'') prompt 0 of
                       Inl e \<Rightarrow> ([c1, c2, c3], Inl e)
                     | Inr [] \<Rightarrow> ([c1, c2, c3], Inl IndexError)
                     | Inr (None # _) \<Rightarrow> ([c1, c2, c3], Inl AttributeError)
                     | Inr (Some content # _) \<Rightarrow> ([c1, c2, c3], Inr (strip content))))))"

section \<open>The page: \<open>main\<close>\<close>


datatype 'v event =
    Call "'v call"       \<comment> \<open>an outbound call of \<open>ask\<close>\<close>
  | Header               \<comment> \<open>\<open>set_page_config\<close>, \<open>title\<close>, the introduction, the two input widgets\<close>
  | Spinner              \<comment> \<open>\<open>st.spinner("Thinking...")\<close>\<close>
  | Markdown ustr        \<comment> \<open>\<open>st.markdown\<close>\<close>
  | Write ustr           \<comment> \<open>\<open>st.write\<close>\<close>
  | ErrorBox ustr error  \<comment> \<open>\<open>st.error(f"... {e}")\<close>: the text before the exception, and the exception\<close>
  | Expander             \<comment> \<open>\<open>st.expander\<close> of the debug panel\<close>
  | TextInput ustr "cfg_value option"   \<comment> \<open>\<open>st.text_input(label, value, disabled=True)\<close>\<close>
  | NumberInput ustr int                \<comment> \<open>\<open>st.number_input(label, value=..., disabled=True)\<close>\<close>

definition js_safe :: "int \<Rightarrow> bool" where
  \<comment> \<open>the integers that \<open>st.number_input\<close> takes as a value: those of magnitude at most
      \<open>(1 << 53) - 1\<close>\<close>
  "js_safe k \<longleftrightarrow> - (2 ^ 53 - 1) \<le> k \<and> k \<le> 2 ^ 53 - 1"

definition debug_panel :: "config \<Rightarrow> 'v event list \<times> (error + unit)" where
  \<comment> \<open>lines 102 to 106, which stand after the \<open>try\<close> statement: the third widget raises
      for a \<open>TOP_K\<close> that is not \<open>js_safe\<close>\<close>
  "debug_panel cfg =
     (if js_safe (TOP_K cfg) then
        ([Expander,
          TextInput (u ''Pinecone Index'') (INDEX_NAME cfg),
          TextInput (u ''Namespace'') (NAMESPACE cfg),
          NumberInput (u ''Top'' @ [0x2011] @ u ''K'') (TOP_K cfg),
          TextInput (u ''Embedding Model'') (EMBED_MODEL cfg)], Inr ())
      else
        ([Expander,
          TextInput (u ''Pinecone Index'') (INDEX_NAME cfg),
          TextInput (u ''Namespace'') (NAMESPACE cfg)], Inl NumberBoundsError))"



fun is_call :: "'v event \<Rightarrow> bool" where
  "is_call (Call _) = True"
| "is_call _ = False"

fun is_error_box :: "'v event \<Rightarrow> bool" where
  "is_error_box (ErrorBox _ _) = True"
| "is_error_box _ = False"

section \<open>Notions used in the statements\<close>

definition ind8 :: ustr where
  \<comment> \<open>the eight spaces before every line of the template in the source\<close>
  "ind8 = replicate 8 SP"

definition instruction_lines :: "ustr list" where
  \<comment> \<open>the three instruction lines of the template, without their indentation\<close>
  "instruction_lines =
     [u ''You are Pipe'' @ [0x2011] @ u ''Spec Assistant.'',
      u ''Answer the user's question **only** with information in the context.'',
      u ''Try to give the best answer possible. If you really don't know say you don't know, but still try to provide some value.'']"

definition prompt_lines :: "ustr \<Rightarrow> ustr \<Rightarrow> ustr list" where
  \<comment> \<open>the lines of the f-string after interpolation\<close>
  "prompt_lines ctx q =
     [[]] @ map ((@) ind8) instruction_lines @ [[], ind8 @ u ''### Context''] @
     split_lines (ind8 @ ctx) @ [[], ind8 @ u ''### Question''] @
     split_lines (ind8 @ q) @ [[], ind8 @ u ''### Answer'', u ''    '']"

definition template_body :: "ustr \<Rightarrow> bool" where
  \<comment> \<open>a line of text that starts at its first column and holds no newline\<close>
  "template_body b \<longleftrightarrow> b \<noteq> [] \<and> \<not> is_indent_char (hd b) \<and> NL \<notin> set b"

definition body_margin :: "ustr \<Rightarrow> ustr \<Rightarrow> ustr option" where
  \<comment> \<open>the margin loop of \<open>dedent\<close>, started at the template's indentation and run over
      the lines that the context and the question put into the text\<close>
  "body_margin ctx q =
     foldl margin_step (Some ind8)
       (indents (map blank_whitespace_only (split_lines (ind8 @ ctx))) @
        indents (map blank_whitespace_only (split_lines (ind8 @ q))))"

definition text_is_str :: "retrieved_match \<Rightarrow> bool" where
  \<comment> \<open>the match has a metadata mapping, and its \<open>text\<close> value, when there is one, is a
      \<open>str\<close>\<close>
  "text_is_str m =
     (case metadata m of
        None \<Rightarrow> False
      | Some d \<Rightarrow> (case d (u ''text'') of None \<Rightarrow> True | Some (MStr _) \<Rightarrow> True | Some MOther \<Rightarrow> False))"

definition match_text :: "retrieved_match \<Rightarrow> ustr" where
  \<comment> \<open>the \<open>text\<close> metadata value of a match when it is a \<open>str\<close>, and the empty string
      otherwise, so also when the key is missing\<close>
  "match_text m =
     (case metadata m of
        None \<Rightarrow> []
      | Some d \<Rightarrow> (case d (u ''text'') of Some (MStr t) \<Rightarrow> t | _ \<Rightarrow> []))"

fun spec_context_block :: "ustr list \<Rightarrow> ustr" where
  \<comment> \<open>the ContextBlock in the specification's words: the texts in their order, the
      separator \<open>\n\n---\n\n\<close> before every text but the first\<close>
  "spec_context_block [] = []"
| "spec_context_block (t # ts) = t @ concat (map (\<lambda>s. [NL, NL, 45, 45, 45, NL, NL] @ s) ts)"

definition spec_fallback ::
  "cfg_value option \<Rightarrow> ustr option \<Rightarrow> cfg_value option \<Rightarrow> cfg_value option" where
  \<comment> \<open>the resolution order in the specification's words: the secret store's value, else
      the environment variable, else the default\<close>
  "spec_fallback secret env dflt =
     (case secret of
        Some v \<Rightarrow> Some v
      | None \<Rightarrow> (case env of Some s \<Rightarrow> Some (VStr s) | None \<Rightarrow> dflt))"

definition key_present :: "error + cfg_value option \<Rightarrow> bool" where
  \<comment> \<open>a key is there after resolution: the lookup returned, and what it returned is
      true for \<open>not\<close>\<close>
  "key_present r = (case r of Inl e \<Rightarrow> False | Inr v \<Rightarrow> truthy v)"

subsection \<open>Test doubles\<close>

definition fake_providers ::
  "(error + nat list) \<Rightarrow> (error + retrieved_match list) \<Rightarrow> (error + ustr option list) \<Rightarrow> nat providers" where
  \<comment> \<open>providers that answer every call with the given outcome\<close>
  "fake_providers emb res gen =
     \<lparr> embeddings_create = (\<lambda>_ _. emb), index_query = (\<lambda>_ _ _ _. res),
       chat_completions_create = (\<lambda>_ _ _. gen) \<rparr>"

definition test_config :: config where
  "test_config =
     \<lparr> PINECONE_API_KEY = Some (VStr (u ''pc'')), OPENAI_API_KEY = Some (VStr (u ''sk'')),
       INDEX_NAME = Some (VStr (u ''aquestia'')), NAMESPACE = Some (VStr (u ''v1'')),
       EMBED_MODEL = Some (VStr (u ''text-embedding-3-large'')), TOP_K = 20 \<rparr>"

definition text_match :: "ustr \<Rightarrow> retrieved_match" where
  \<comment> \<open>a match whose metadata is \<open>{"text": t}\<close>\<close>
  "text_match t = \<lparr> match_id = [], metadata = Some [u ''text'' \<mapsto> MStr t] \<rparr>"

definition bare_match :: retrieved_match where
  \<comment> \<open>a match whose metadata has no \<open>text\<close> key\<close>
  "bare_match = \<lparr> match_id = [], metadata = Some Map.empty \<rparr>"

definition no_metadata_match :: retrieved_match where
  \<comment> \<open>a match whose \<open>metadata\<close> is \<open>None\<close>\<close>
  "no_metadata_match = \<lparr> match_id = [], metadata = None \<rparr>"

definition number_match :: retrieved_match where
  \<comment> \<open>a match whose metadata is \<open>{"text": 5}\<close>\<close>
  "number_match = \<lparr> match_id = [], metadata = Some [u ''text'' \<mapsto> MOther] \<rparr>"

definition no_int_str :: "ustr \<Rightarrow> error + int" where
  \<comment> \<open>stands for \<open>int\<close> on strings where no string reaches it\<close>
  "no_int_str s = Inl ValueError"

section \<open>Lines: \<open>split_lines\<close> and \<open>join\<close>\<close>

lemma split_lines_not_Nil: "split_lines s \<noteq> []"
  by (induction s) (auto split: list.splits)

lemma split_lines_append_NL: "split_lines (a @ NL # b) = split_lines a @ split_lines b"
  by (induction a) (auto split: list.splits simp: split_lines_not_Nil)

lemma split_lines_no_NL: "NL \<notin> set s \<Longrightarrow> split_lines s = [s]"
  by (induction s) auto

lemma split_lines_NL_free: "l \<in> set (split_lines s) \<Longrightarrow> NL \<notin> set l"
  by (induction s arbitrary: l) (auto split: if_splits list.splits)

lemma join_Cons: "join sep (x # xs) = (if xs = [] then x else x @ sep @ join sep xs)"
  by (cases xs) auto

lemma join_append: "xs \<noteq> [] \<Longrightarrow> ys \<noteq> [] \<Longrightarrow> join sep (xs @ ys) = join sep xs @ sep @ join sep ys"
  by (induction xs rule: join.induct[where ?a0.0 = sep]) (auto simp: join_Cons)

lemma join_split_lines: "join [NL] (split_lines s) = s"
  by (induction s) (auto simp: join_Cons split_lines_not_Nil split: list.splits)

lemma split_lines_join:
  "ls \<noteq> [] \<Longrightarrow> list_all (\<lambda>l. NL \<notin> set l) ls \<Longrightarrow> split_lines (join [NL] ls) = ls"
proof (induction ls)
  case Nil
  then show ?case by simp
next
  case (Cons x xs)
  show ?case
  proof (cases "xs = []")
    case True
    with Cons.prems show ?thesis by (simp add: split_lines_no_NL)
  next
    case False
    with Cons have "split_lines (join [NL] xs) = xs" by simp
    moreover have "split_lines x = [x]" using Cons.prems by (simp add: split_lines_no_NL)
    ultimately show ?thesis
      using False split_lines_append_NL[of x "join [NL] xs"] by (simp add: join_Cons)
  qed
qed


lemma is_indent_SP: "is_indent_char SP" by (simp add: is_indent_char_def)

lemma trim_margin_prefix: "prefix (trim_margin m i) m"
  by (induction m i rule: trim_margin.induct) auto

lemma prefix_replicate: "prefix xs (replicate k a) \<Longrightarrow> xs = replicate (length xs) a \<and> length xs \<le> k"
proof (induction xs arbitrary: k)
  case Nil
  then show ?case by simp
next
  case (Cons x xs)
  then show ?case by (cases k) auto
qed

lemma margin_step_replicate:
  "\<exists>j\<le>k. margin_step (Some (replicate k SP)) ind = Some (replicate j SP)"
proof -
  have "prefix (trim_margin (replicate k SP) ind) (replicate k SP)" by (rule trim_margin_prefix)
  from prefix_replicate[OF this] have 1: "\<exists>j\<le>k. trim_margin (replicate k SP) ind = replicate j SP" by metis
  have 2: "prefix ind (replicate k SP) \<Longrightarrow> \<exists>j\<le>k. ind = replicate j SP"
    using prefix_replicate by metis
  show ?thesis using 1 2 by auto
qed

lemma foldl_margin_replicate:
  "\<exists>j\<le>k. foldl margin_step (Some (replicate k SP)) inds = Some (replicate j SP)"
proof (induction inds arbitrary: k)
  case Nil
  then show ?case by auto
next
  case (Cons a inds)
  obtain j where j: "j \<le> k" "margin_step (Some (replicate k SP)) a = Some (replicate j SP)"
    using margin_step_replicate by blast
  from Cons.IH[of j] obtain j' where "j' \<le> j" "foldl margin_step (Some (replicate j SP)) inds = Some (replicate j' SP)" by blast
  with j show ?case by (auto intro: exI[of _ j'])
qed

section \<open>The lines of the prompt\<close>

lemma ind8_eval: "ind8 = [SP, SP, SP, SP, SP, SP, SP, SP]"
  by (simp add: ind8_def numeral_eq_Suc)

lemma u_append: "u (a @ b) = u a @ u b" by (simp add: u_def)
lemma u_Cons: "u (c # cs) = of_char c # u cs" by (simp add: u_def)
lemma u_Nil: "u [] = []" by (simp add: u_def)

lemma u_ind8: "u (CHR '' '' # CHR '' '' # CHR '' '' # CHR '' '' # CHR '' '' # CHR '' '' # CHR '' '' # CHR '' '' # s) = ind8 @ u s"
  by (simp add: u_Cons ind8_eval)

lemma prompt_fstring_lines: "prompt_fstring ctx q = join [NL] (prompt_lines ctx q)"
proof -
  have 1: "join [NL] (split_lines (ind8 @ ctx)) = ind8 @ ctx" 
    and 2: "join [NL] (split_lines (ind8 @ q)) = ind8 @ q"
    by (rule join_split_lines)+
  show ?thesis
    unfolding prompt_lines_def prompt_fstring_def instruction_lines_def
    by (simp add: join_Cons join_append split_lines_not_Nil 1 2 u_ind8 u_Nil del: split_lines.simps)
qed

lemma NL_in_u: "NL \<in> set (u s) \<longleftrightarrow> CHR 0x0A \<in> set s"
proof -
  have "(NL::nat) = of_char (CHR 0x0A)" by simp
  then show ?thesis unfolding u_def by (metis (no_types, lifting) image_iff list.set_map of_char_eq_iff)
qed

lemma tb_u: "template_body (u (c # cs)) \<longleftrightarrow> \<not> is_indent_char (of_char c) \<and> CHR 0x0A \<notin> set (c # cs)"
  unfolding template_body_def NL_in_u by (simp add: u_Cons)

lemma tb_append: "template_body a \<Longrightarrow> NL \<notin> set b \<Longrightarrow> template_body (a @ b)"
  by (auto simp: template_body_def)

lemma tb_instr: "list_all template_body instruction_lines"
proof -
  have "template_body (u ''You are Pipe'')" by (simp add: tb_u is_indent_char_def)
  moreover have "NL \<notin> set ([0x2011] @ u ''Spec Assistant.'')" by (simp add: NL_in_u)
  ultimately have "template_body (u ''You are Pipe'' @ [0x2011] @ u ''Spec Assistant.'')" by (rule tb_append)
  moreover have "template_body (u ''Answer the user's question **only** with information in the context.'')"
    by (simp add: tb_u is_indent_char_def)
  moreover have "template_body (u ''Try to give the best answer possible. If you really don't know say you don't know, but still try to provide some value.'')"
    by (simp add: tb_u is_indent_char_def)
  ultimately show ?thesis by (simp add: instruction_lines_def)
qed

lemma tb_heads: "template_body (u ''### Context'')" "template_body (u ''### Question'')" "template_body (u ''### Answer'')"
  by (simp_all add: tb_u is_indent_char_def)

section \<open>The margin that \<open>dedent\<close> removes from the prompt\<close>

lemma remove_margin_Nil: "remove_margin [] = (\<lambda>l. l)"
  by (simp add: remove_margin_def fun_eq_iff)

lemma dedent_join:
  assumes "ls \<noteq> []" "list_all (\<lambda>l. NL \<notin> set l) ls"
  shows "dedent (join [NL] ls) =
     (case find_margin (indents (map blank_whitespace_only ls)) of
        None \<Rightarrow> join [NL] (map blank_whitespace_only ls)
      | Some m \<Rightarrow> join [NL] (map (remove_margin m) (map blank_whitespace_only ls)))"
proof -
  have "split_lines (join [NL] ls) = ls" using assms by (rule split_lines_join)
  then show ?thesis
    by (auto simp: dedent_def Let_def remove_margin_Nil o_def split: option.splits)
qed

lemma indents_append: "indents (xs @ ys) = indents xs @ indents ys"
  by (simp add: indents_def)

lemma indents_Cons:
  "indents (l # ls) = (if list_all is_indent_char l then indents ls else takeWhile is_indent_char l # indents ls)"
  by (simp add: indents_def)

lemma indents_Nil: "indents [] = []" by (simp add: indents_def)

lemma list_all_ind8: "list_all is_indent_char ind8"
  by (simp add: ind8_def is_indent_char_def list_all_iff)

lemma tb_not_ws: "template_body b \<Longrightarrow> \<not> list_all is_indent_char (ind8 @ b)"
  by (cases b) (auto simp: template_body_def)

lemma tb_blank: "template_body b \<Longrightarrow> blank_whitespace_only (ind8 @ b) = ind8 @ b"
proof -
  assume "template_body b"
  then have "\<not> list_all is_indent_char (ind8 @ b)" by (rule tb_not_ws)
  then show ?thesis unfolding blank_whitespace_only_def by (simp only: simp_thms if_False)
qed

lemma tb_takeWhile: "template_body b \<Longrightarrow> takeWhile is_indent_char (ind8 @ b) = ind8"
  using list_all_ind8 by (cases b) (auto simp: template_body_def list_all_iff)

lemma ind8_split: "j \<le> 8 \<Longrightarrow> ind8 = replicate j SP @ replicate (8 - j) SP"
  by (simp add: ind8_def flip: replicate_add)

lemma prefix_rep_ind8: "j \<le> 8 \<Longrightarrow> prefix (replicate j SP) ind8"
  using ind8_split[of j] by (metis prefixI)

lemma remove_margin_append: "remove_margin m (m @ r) = r"
  by (simp add: remove_margin_def)

lemma tb_remove:
  assumes "j \<le> 8"
  shows "remove_margin (replicate j SP) (ind8 @ b) = replicate (8 - j) SP @ b"
proof -
  have "ind8 @ b = replicate j SP @ (replicate (8 - j) SP @ b)"
    using ind8_split[OF assms] by (metis append_assoc)
  then show ?thesis by (simp only: remove_margin_append)
qed

lemma blank_Nil: "blank_whitespace_only [] = []" by (simp add: blank_whitespace_only_def)
lemma blank_sp4: "blank_whitespace_only (u ''    '') = []"
  by (simp add: blank_whitespace_only_def u_Cons u_Nil is_indent_char_def)

lemma remove_margin_empty: "remove_margin m [] = []"
  by (simp add: remove_margin_def)

lemma step_ind8: "j \<le> 8 \<Longrightarrow> margin_step (Some (replicate j SP)) ind8 = Some (replicate j SP)"
  by (simp add: prefix_rep_ind8)

lemma skip_ind8:
  assumes "k \<le> 8"
  shows "foldl margin_step (Some (replicate k SP)) (A @ ind8 # B) = foldl margin_step (Some (replicate k SP)) (A @ B)"
proof -
  obtain j where "j \<le> k" "foldl margin_step (Some (replicate k SP)) A = Some (replicate j SP)"
    using foldl_margin_replicate by blast
  moreover from this assms have "margin_step (Some (replicate j SP)) ind8 = Some (replicate j SP)"
    by (intro step_ind8) simp
  ultimately show ?thesis by (simp del: margin_step.simps)
qed

lemma indents_tb: "template_body b \<Longrightarrow> indents ((ind8 @ b) # ls) = ind8 # indents ls"
  unfolding indents_Cons using tb_not_ws[of b] tb_takeWhile[of b] by (simp only: if_False)

lemma indents_empty: "indents ([] # ls) = indents ls"
  by (simp add: indents_Cons)

lemma blank_prompt_lines:
  "map blank_whitespace_only (prompt_lines ctx q) =
     [[]] @ map ((@) ind8) instruction_lines @ [[], ind8 @ u ''### Context''] @
     map blank_whitespace_only (split_lines (ind8 @ ctx)) @ [[], ind8 @ u ''### Question''] @
     map blank_whitespace_only (split_lines (ind8 @ q)) @ [[], ind8 @ u ''### Answer'', []]"
proof -
  obtain i1 i2 i3 where I: "instruction_lines = [i1, i2, i3]" by (simp add: instruction_lines_def)
  have t: "template_body i1" "template_body i2" "template_body i3" using tb_instr unfolding I by simp_all
  show ?thesis
    unfolding prompt_lines_def I
    by (simp only: map_append list.map tb_blank[OF t(1)] tb_blank[OF t(2)] tb_blank[OF t(3)]
        tb_blank[OF tb_heads(1)] tb_blank[OF tb_heads(2)] tb_blank[OF tb_heads(3)] blank_Nil blank_sp4)
qed

lemma prompt_find_margin:
  "find_margin (indents (map blank_whitespace_only (prompt_lines ctx q))) = body_margin ctx q"
proof -
  obtain i1 i2 i3 where I: "instruction_lines = [i1, i2, i3]" by (simp add: instruction_lines_def)
  have t: "template_body i1" "template_body i2" "template_body i3" using tb_instr unfolding I by simp_all
  define C where "C = indents (map blank_whitespace_only (split_lines (ind8 @ ctx)))"
  define Q where "Q = indents (map blank_whitespace_only (split_lines (ind8 @ q)))"
  have 1: "indents (map blank_whitespace_only (prompt_lines ctx q)) =
      [ind8, ind8, ind8, ind8] @ C @ [ind8] @ Q @ [ind8]"
    unfolding blank_prompt_lines I C_def Q_def
    by (simp only: indents_append list.map append_Cons append_Nil indents_empty indents_Nil
        indents_tb[OF t(1)] indents_tb[OF t(2)] indents_tb[OF t(3)]
        indents_tb[OF tb_heads(1)] indents_tb[OF tb_heads(2)] indents_tb[OF tb_heads(3)])
  have s0: "ind8 = replicate 8 SP" by (simp add: ind8_def)
  have 2: "margin_step (Some ind8) ind8 = Some ind8" by simp
  have "foldl margin_step None ([ind8, ind8, ind8, ind8] @ C @ [ind8] @ Q @ [ind8])
      = foldl margin_step (Some ind8) (C @ ind8 # (Q @ [ind8]))"
    by (simp add: 2 del: margin_step.simps(2))
  also have "\<dots> = foldl margin_step (Some ind8) (C @ (Q @ [ind8]))"
    using skip_ind8[of 8 C "Q @ [ind8]"] by (simp only: s0[symmetric])
  also have "\<dots> = foldl margin_step (Some ind8) ((C @ Q) @ ind8 # [])" by simp
  also have "\<dots> = foldl margin_step (Some ind8) ((C @ Q) @ [])"
    using skip_ind8[of 8 "C @ Q" "[]"] by (simp only: s0[symmetric])
  finally show ?thesis
    unfolding find_margin_def body_margin_def 1 C_def Q_def by simp
qed

lemma body_margin_replicate: "\<exists>j\<le>8. body_margin ctx q = Some (replicate j SP)"
  unfolding body_margin_def ind8_def by (rule foldl_margin_replicate)

lemma NL_free_prompt_lines: "list_all (\<lambda>l. NL \<notin> set l) (prompt_lines ctx q)"
proof -
  have a: "list_all (\<lambda>l. NL \<notin> set l) (split_lines s)" for s
    using split_lines_NL_free by (auto simp: list_all_iff)
  have b: "template_body b \<Longrightarrow> NL \<notin> set (ind8 @ b)" for b by (simp add: template_body_def ind8_eval)
  obtain i1 i2 i3 where I: "instruction_lines = [i1, i2, i3]" by (simp add: instruction_lines_def)
  have t: "template_body i1" "template_body i2" "template_body i3" using tb_instr unfolding I by simp_all
  have c: "NL \<notin> set (u ''    '')" by (simp add: NL_in_u)
  show ?thesis
    unfolding prompt_lines_def I using a[of "ind8 @ ctx"] a[of "ind8 @ q"] b[OF t(1)] b[OF t(2)] b[OF t(3)]
      b[OF tb_heads(1)] b[OF tb_heads(2)] b[OF tb_heads(3)] c
    by (simp del: split_lines.simps set_append)
qed

lemma build_prompt_lines:
  assumes "body_margin ctx q = Some m"
  shows "build_prompt ctx q = join [NL]
    ([[]] @ map ((@) (drop (length m) ind8)) instruction_lines @ [[], drop (length m) ind8 @ u ''### Context''] @
     map (remove_margin m) (map blank_whitespace_only (split_lines (ind8 @ ctx))) @
     [[], drop (length m) ind8 @ u ''### Question''] @
     map (remove_margin m) (map blank_whitespace_only (split_lines (ind8 @ q))) @
     [[], drop (length m) ind8 @ u ''### Answer'', []])"
proof -
  obtain j where j: "j \<le> 8" "m = replicate j SP" using body_margin_replicate[of ctx q] assms by auto
  have d: "drop (length m) ind8 = replicate (8 - j) SP" using j by (simp add: ind8_def)
  obtain i1 i2 i3 where I: "instruction_lines = [i1, i2, i3]" by (simp add: instruction_lines_def)
  have "prompt_lines ctx q \<noteq> []" by (simp add: prompt_lines_def)
  then have "build_prompt ctx q = join [NL] (map (remove_margin m) (map blank_whitespace_only (prompt_lines ctx q)))"
    unfolding build_prompt_def prompt_fstring_lines
    using dedent_join[OF _ NL_free_prompt_lines, of ctx q] prompt_find_margin[of ctx q] assms
    by simp
  also have "map (remove_margin m) (map blank_whitespace_only (prompt_lines ctx q)) =
    [[]] @ map ((@) (drop (length m) ind8)) instruction_lines @ [[], drop (length m) ind8 @ u ''### Context''] @
     map (remove_margin m) (map blank_whitespace_only (split_lines (ind8 @ ctx))) @
     [[], drop (length m) ind8 @ u ''### Question''] @
     map (remove_margin m) (map blank_whitespace_only (split_lines (ind8 @ q))) @
     [[], drop (length m) ind8 @ u ''### Answer'', []]"
    unfolding blank_prompt_lines d I unfolding j(2)
    by (simp only: map_append list.map tb_remove[OF j(1)] remove_margin_empty)
  finally show ?thesis .
qed


section \<open>Prompts of single-line and of flush-left insertions\<close>

lemma split_lines_prefix:
  "NL \<notin> set a \<Longrightarrow> split_lines (a @ s) = (a @ hd (split_lines s)) # tl (split_lines s)"
  by (induction a) (auto simp: split_lines_not_Nil split: list.splits)

lemma blank_ind8_append:
  "blank_whitespace_only (ind8 @ l) = (if list_all is_indent_char l then [] else ind8 @ l)"
  by (simp add: blank_whitespace_only_def ind8_eval is_indent_SP)

lemma takeWhile_ind8_append:
  "takeWhile is_indent_char (ind8 @ l) = ind8 @ takeWhile is_indent_char l"
  using list_all_ind8 by (simp add: list_all_iff)

lemma single_line_margin:
  assumes "NL \<notin> set ctx" "NL \<notin> set q"
  shows "body_margin ctx q = Some ind8"
proof -
  have n: "NL \<notin> set ind8" by (simp add: ind8_eval)
  have "split_lines (ind8 @ ctx) = [ind8 @ ctx]" "split_lines (ind8 @ q) = [ind8 @ q]"
    using assms n by (simp_all add: split_lines_no_NL)
  then show ?thesis
    unfolding body_margin_def
    by (simp add: blank_ind8_append indents_Cons indents_Nil list_all_ind8 takeWhile_ind8_append)
qed

lemma remove_ind8_blank:
  "remove_margin ind8 (blank_whitespace_only (ind8 @ l)) = blank_whitespace_only l"
proof (cases "list_all is_indent_char l")
  case True
  then show ?thesis
    unfolding blank_ind8_append by (simp add: remove_margin_empty blank_whitespace_only_def)
next
  case False
  then show ?thesis
    unfolding blank_ind8_append by (simp add: remove_margin_append blank_whitespace_only_def)
qed

lemma map_append_Nil: "map ((@) []) xs = xs"
  by (induction xs) auto

lemma single_line_prompt:
  assumes "NL \<notin> set ctx" "NL \<notin> set q"
  shows "build_prompt ctx q = join [NL]
    ([[]] @ instruction_lines @
     [[], u ''### Context'', blank_whitespace_only ctx, [], u ''### Question'',
      blank_whitespace_only q, [], u ''### Answer'', []])"
proof -
  have n: "NL \<notin> set ind8" by (simp add: ind8_eval)
  have s: "split_lines (ind8 @ ctx) = [ind8 @ ctx]" "split_lines (ind8 @ q) = [ind8 @ q]"
    using assms n by (simp_all add: split_lines_no_NL)
  show ?thesis
    unfolding build_prompt_lines[OF single_line_margin[OF assms]] s
    by (simp add: remove_ind8_blank map_append_Nil)
qed


lemma foldl_margin_Nil: "[] \<in> set inds \<Longrightarrow> foldl margin_step (Some m) inds = Some []"
proof (induction inds arbitrary: m)
  case Nil
  then show ?case by simp
next
  case (Cons a inds)
  have z: "foldl margin_step (Some []) xs = Some []" for xs by (induction xs) auto
  show ?case
  proof (cases "a = []")
    case True
    then show ?thesis by (simp add: z)
  next
    case False
    with Cons.prems have "[] \<in> set inds" by auto
    from Cons.IH[OF this] show ?thesis by auto
  qed
qed

lemma indents_has_Nil:
  assumes "l \<in> set ls" "l \<noteq> []" "\<not> is_indent_char (hd l)"
  shows "[] \<in> set (indents (map blank_whitespace_only ls))"
proof -
  from assms(2,3) obtain c cs where l: "l = c # cs" "\<not> is_indent_char c" by (cases l) auto
  then have "blank_whitespace_only l = l" "\<not> list_all is_indent_char l" "takeWhile is_indent_char l = []"
    by (simp_all add: blank_whitespace_only_def)
  with assms(1) show ?thesis unfolding indents_def by force
qed

lemma flush_line_margin:
  assumes "list_ex (\<lambda>l. l \<noteq> [] \<and> \<not> is_indent_char (hd l)) (tl (split_lines ctx) @ tl (split_lines q))"
  shows "body_margin ctx q = Some []"
proof -
  have n: "NL \<notin> set ind8" by (simp add: ind8_eval)
  from assms obtain l where l: "l \<in> set (tl (split_lines ctx)) \<or> l \<in> set (tl (split_lines q))"
      "l \<noteq> []" "\<not> is_indent_char (hd l)"
    by (auto simp: list_ex_iff)
  have "tl (split_lines (ind8 @ s)) = tl (split_lines s)" for s
    by (simp add: split_lines_prefix[OF n])
  then have "l \<in> set (split_lines (ind8 @ ctx)) \<or> l \<in> set (split_lines (ind8 @ q))"
    using l(1) by (metis list.set_sel(2) split_lines_not_Nil)
  then have "[] \<in> set (indents (map blank_whitespace_only (split_lines (ind8 @ ctx))) @
        indents (map blank_whitespace_only (split_lines (ind8 @ q))))"
    using indents_has_Nil[OF _ l(2,3)] by auto
  then show ?thesis unfolding body_margin_def by (rule foldl_margin_Nil)
qed

lemma blank_u: "\<not> is_indent_char (of_char c) \<Longrightarrow> blank_whitespace_only (u (c # cs)) = u (c # cs)"
  by (simp add: blank_whitespace_only_def u_Cons)

lemma context_text_Nil: "context_text [] = Inr []"
  by (simp add: context_text_def py_join_def)

section \<open>The context block\<close>

lemma str_items_MStr: "str_items (map MStr ss) = Inr ss"
  by (induction ss) simp_all

lemma context_chunks_texts:
  "list_all text_is_str ms \<Longrightarrow> context_chunks ms = Inr (map (\<lambda>m. MStr (match_text m)) ms)"
proof (induction ms)
  case Nil
  then show ?case by simp
next
  case (Cons m ms)
  then show ?case
    by (auto simp: text_is_str_def match_text_def dict_get_def split: option.splits meta_value.splits)
qed

lemma context_text_texts:
  assumes "list_all text_is_str ms"
  shows "context_text ms = Inr (join context_separator (map match_text ms))"
proof -
  have "map (\<lambda>m. MStr (match_text m)) ms = map MStr (map match_text ms)" by simp
  then show ?thesis
    unfolding context_text_def context_chunks_texts[OF assms] py_join_def
    by (simp only: str_items_MStr sum.case)
qed

lemma str_items_Inr: "str_items vs = Inr ss \<Longrightarrow> vs = map MStr ss"
proof (induction vs arbitrary: ss)
  case Nil
  then show ?case by simp
next
  case (Cons v vs)
  then show ?case by (cases v) (auto split: sum.splits)
qed

lemma context_chunks_Inr:
  "context_chunks ms = Inr cs \<Longrightarrow>
   list_all (\<lambda>m. metadata m \<noteq> None) ms \<and> cs = map (\<lambda>m. dict_get (the (metadata m)) (u ''text'') (MStr [])) ms"
proof (induction ms arbitrary: cs)
  case Nil
  then show ?case by simp
next
  case (Cons m ms)
  then show ?case by (auto split: option.splits sum.splits)
qed

lemma context_text_Inr: "context_text ms = Inr c \<Longrightarrow> list_all text_is_str ms"
proof -
  assume a: "context_text ms = Inr c"
  then obtain cs where cs: "context_chunks ms = Inr cs"
    by (auto simp: context_text_def split: sum.splits)
  with a obtain ss where ss: "str_items cs = Inr ss"
    by (auto simp: context_text_def py_join_def split: sum.splits)
  from context_chunks_Inr[OF cs] str_items_Inr[OF ss]
  have m: "list_all (\<lambda>m. metadata m \<noteq> None) ms"
    and e: "map (\<lambda>m. dict_get (the (metadata m)) (u ''text'') (MStr [])) ms = map MStr ss"
    by simp_all
  show ?thesis
    unfolding list_all_iff
  proof
    fix x assume x: "x \<in> set ms"
    with m obtain d where d: "metadata x = Some d" by (auto simp: list_all_iff)
    from e x have "dict_get (the (metadata x)) (u ''text'') (MStr []) \<in> set (map MStr ss)"
      by (metis (no_types, lifting) image_eqI list.set_map)
    then obtain t where "dict_get d (u ''text'') (MStr []) = MStr t" using d by auto
    then show "text_is_str x"
      using d by (auto simp: text_is_str_def dict_get_def split: option.splits meta_value.splits)
  qed
qed

lemma context_text_Inr_iff: "(\<exists>c. context_text ms = Inr c) \<longleftrightarrow> list_all text_is_str ms"
  using context_text_Inr context_text_texts by blast

lemma join_spec_context_block: "join context_separator ts = spec_context_block ts"
proof (induction ts)
  case Nil
  then show ?case by simp
next
  case (Cons t ts)
  then show ?case by (cases ts) (simp_all add: join_Cons context_separator_def u_def)
qed

lemma length_separated:
  "length (concat (map (\<lambda>x. NL # NL # 45 # 45 # 45 # NL # NL # f x) xs)) =
     sum_list (map (\<lambda>x. length (f x)) xs) + length xs * 7"
  by (induction xs) simp_all

text \<open>
  C2. For every sequence of retrieved matches that each carry a metadata mapping whose
  \<open>text\<close> value, when there is one, is a string, the ContextBlock is the texts of the
  matches, in the order of the search result, with the separator \<open>"\n\n---\n\n"\<close>
  (two newlines, three hyphens, two newlines) between them. A match whose metadata has
  no \<open>text\<close> key contributes the empty string and keeps its place: there is one chunk
  for each match, and \<open>n\<close> matches give a block whose length is the length of the \<open>n\<close>
  texts and of \<open>n - 1\<close> separators of seven characters.
\<close>

theorem context_text_joins_texts:
  assumes "list_all text_is_str ms"
  shows "context_text ms = Inr (spec_context_block (map match_text ms)) \<and>
   (\<exists>cs. context_chunks ms = Inr cs \<and> length cs = length ms) \<and>
   (\<forall>d. metadata m = Some d \<and> d (u ''text'') = None \<longrightarrow>
      context_chunks [m] = Inr [MStr []] \<and> context_text [m] = Inr []) \<and>
   (text_is_str a \<and> text_is_str b \<longrightarrow>
      context_text [a, b] = Inr (match_text a @ [NL, NL, 45, 45, 45, NL, NL] @ match_text b)) \<and>
   (ms \<noteq> [] \<longrightarrow>
      length (spec_context_block (map match_text ms)) =
        sum_list (map (length \<circ> match_text) ms) + (length ms - 1) * 7)"
proof -
  have 1: "context_text ms = Inr (spec_context_block (map match_text ms))"
    by (simp add: context_text_texts[OF assms] join_spec_context_block)
  have 2: "\<exists>cs. context_chunks ms = Inr cs \<and> length cs = length ms"
    by (simp add: context_chunks_texts[OF assms])
  have 3: "context_chunks [m] = Inr [MStr []] \<and> context_text [m] = Inr []"
    if "metadata m = Some d \<and> d (u ''text'') = None" for d
    using that by (simp add: context_text_def py_join_def dict_get_def)
  have 4: "context_text [a, b] = Inr (match_text a @ [NL, NL, 45, 45, 45, NL, NL] @ match_text b)"
    if "text_is_str a \<and> text_is_str b"
  proof -
    from that have "list_all text_is_str [a, b]" by simp
    from context_text_texts[OF this] show ?thesis by (simp add: context_separator_def u_def)
  qed
  have 5: "length (spec_context_block (map match_text ms)) =
        sum_list (map (length \<circ> match_text) ms) + (length ms - 1) * 7" if "ms \<noteq> []"
  proof -
    from that obtain x xs where "ms = x # xs" by (cases ms) auto
    then show ?thesis by (simp add: length_separated o_def)
  qed
  from 1 2 3 4 5 show ?thesis by blast
qed

text \<open>
  Three matches of which the second has no \<open>text\<close>, and the two matches of the
  specification's example.
\<close>

theorem context_text_joins_texts_witness:
  "list_all text_is_str [text_match (u ''A''), bare_match, text_match (u ''C'')] \<and>
   context_text [text_match (u ''A''), bare_match, text_match (u ''C'')] =
     Inr (u ''A'' @ [NL, NL, 45, 45, 45, NL, NL] @ [] @ [NL, NL, 45, 45, 45, NL, NL] @ u ''C'') \<and>
   context_chunks [text_match (u ''A''), bare_match, text_match (u ''C'')] =
     Inr [MStr (u ''A''), MStr [], MStr (u ''C'')] \<and>
   context_text [text_match (u ''Valve X rated to 150 psi''), text_match (u ''Valve Y rated to 300 psi'')] =
     Inr (u ''Valve X rated to 150 psi'' @ [NL, NL] @ u ''---'' @ [NL, NL] @ u ''Valve Y rated to 300 psi'')"
proof -
  have h: "list_all text_is_str [text_match (u ''A''), bare_match, text_match (u ''C'')]"
    by (simp add: text_is_str_def text_match_def bare_match_def)
  have t: "text_is_str (text_match (u ''Valve X rated to 150 psi'')) \<and>
      text_is_str (text_match (u ''Valve Y rated to 300 psi''))"
    by (simp add: text_is_str_def text_match_def)
  have m: "match_text (text_match s) = s" "match_text bare_match = []" for s
    by (simp_all add: match_text_def text_match_def bare_match_def)
  have d: "u ''---'' = [45, 45, 45]"
    by (simp add: u_def)
  have c: "context_chunks [text_match (u ''A''), bare_match, text_match (u ''C'')] =
     Inr [MStr (u ''A''), MStr [], MStr (u ''C'')]"
    by (simp add: text_match_def bare_match_def dict_get_def)
  from context_text_joins_texts [OF h, of bare_match "text_match (u ''Valve X rated to 150 psi'')"
      "text_match (u ''Valve Y rated to 300 psi'')"] h t c
  show ?thesis
    by (simp add: m d)
qed

text \<open>
  Line 51 raises for a match whose \<open>metadata\<close> is \<open>None\<close>, and line 52 for a \<open>text\<close> value
  that is no string: for these sequences of matches there is no ContextBlock.
\<close>

theorem context_text_raises_counterexample:
  "context_text [text_match (u ''A''), no_metadata_match] = Inl AttributeError \<and>
   context_text [text_match (u ''A''), number_match] = Inl TypeError"
  by (simp add: context_text_def py_join_def dict_get_def text_match_def no_metadata_match_def
      number_match_def)

text \<open>
  C9. The ContextBlock keeps the order of the search result: chunk \<open>i\<close> is the text of
  match \<open>i\<close> (whenever line 51 returns, chunk \<open>i\<close> is what \<open>get\<close> returns for match \<open>i\<close>),
  and the block of two result lists one after the other is the block of the first, the
  separator, and the block of the second. The join is not commutative:
  there are two matches with distinct texts whose blocks in the two orders differ.
\<close>

theorem context_text_keeps_order:
  "(list_all text_is_str ms \<longrightarrow>
      (\<exists>cs. context_chunks ms = Inr cs \<and> length cs = length ms \<and>
            (\<forall>i<length ms. cs ! i = MStr (match_text (ms ! i))))) \<and>
   (context_chunks ms = Inr chunks \<longrightarrow>
      length chunks = length ms \<and>
      (\<forall>i<length ms. \<exists>d. metadata (ms ! i) = Some d \<and>
                         chunks ! i = dict_get d (u ''text'') (MStr []))) \<and>
   (xs \<noteq> [] \<and> ys \<noteq> [] \<and> context_text xs = Inr cx \<and> context_text ys = Inr cy \<longrightarrow>
      context_text (xs @ ys) = Inr (cx @ context_separator @ cy)) \<and>
   (\<exists>m1 m2 c12 c21. match_text m1 \<noteq> match_text m2 \<and>
      context_text [m1, m2] = Inr c12 \<and> context_text [m2, m1] = Inr c21 \<and> c12 \<noteq> c21)"
proof -
  have 1: "\<exists>cs. context_chunks ms = Inr cs \<and> length cs = length ms \<and>
            (\<forall>i<length ms. cs ! i = MStr (match_text (ms ! i)))" if "list_all text_is_str ms"
    by (simp add: context_chunks_texts[OF that])
  have 2: "context_text (xs @ ys) = Inr (cx @ context_separator @ cy)"
    if "xs \<noteq> [] \<and> ys \<noteq> [] \<and> context_text xs = Inr cx \<and> context_text ys = Inr cy"
  proof -
    from that have w: "list_all text_is_str xs" "list_all text_is_str ys"
      using context_text_Inr by blast+
    then have "list_all text_is_str (xs @ ys)" by simp
    from context_text_texts[OF this] context_text_texts[OF w(1)] context_text_texts[OF w(2)] that
    show ?thesis by (simp add: join_append)
  qed
  have "match_text (text_match (u ''A'')) \<noteq> match_text (text_match (u ''B'')) \<and>
        context_text [text_match (u ''A''), text_match (u ''B'')] = Inr (u ''A'' @ context_separator @ u ''B'') \<and>
        context_text [text_match (u ''B''), text_match (u ''A'')] = Inr (u ''B'' @ context_separator @ u ''A'') \<and>
        u ''A'' @ context_separator @ u ''B'' \<noteq> u ''B'' @ context_separator @ u ''A''"
    by (simp add: context_text_def py_join_def dict_get_def match_text_def text_match_def u_def)
  then have 3: "\<exists>m1 m2 c12 c21. match_text m1 \<noteq> match_text m2 \<and>
      context_text [m1, m2] = Inr c12 \<and> context_text [m2, m1] = Inr c21 \<and> c12 \<noteq> c21"
    by blast
  have 4: "length chunks = length ms \<and>
      (\<forall>i<length ms. \<exists>d. metadata (ms ! i) = Some d \<and>
                         chunks ! i = dict_get d (u ''text'') (MStr []))"
    if "context_chunks ms = Inr chunks"
    using context_chunks_Inr[OF that] by (auto simp: list_all_length)
  from 1 2 3 4 show ?thesis by blast
qed

theorem context_text_keeps_order_witness:
  "list_all text_is_str [text_match (u ''A''), text_match (u ''B'')] \<and>
   context_chunks [text_match (u ''A''), text_match (u ''B'')] = Inr [MStr (u ''A''), MStr (u ''B'')] \<and>
   context_text ([text_match (u ''A'')] @ [text_match (u ''B'')]) =
     Inr (u ''A'' @ context_separator @ u ''B'')"
proof -
  have h: "list_all text_is_str [text_match (u ''A''), text_match (u ''B'')]"
    by (simp add: text_is_str_def text_match_def)
  have a: "context_text [text_match (u ''A'')] = Inr (u ''A'')"
    "context_text [text_match (u ''B'')] = Inr (u ''B'')"
    by (simp_all add: context_text_def py_join_def dict_get_def text_match_def)
  have c: "context_chunks [text_match (u ''A''), text_match (u ''B'')] = Inr [MStr (u ''A''), MStr (u ''B'')]"
    by (simp add: text_match_def dict_get_def)
  from context_text_keeps_order [of "[text_match (u ''A''), text_match (u ''B'')]" _
      "[text_match (u ''A'')]" "[text_match (u ''B'')]" "u ''A''" "u ''B''"] h a c
  show ?thesis by simp
qed

section \<open>The prompt\<close>

text \<open>
  C8. When the search returns no match, the ContextBlock is the empty string, and the
  prompt is still the template: the three instruction lines, \<open>### Context\<close> followed by
  an empty line for the context body, \<open>### Question\<close>, the lines of the question as
  \<open>dedent\<close> leaves them, and \<open>### Answer\<close>. The template lines all carry the same
  indentation of \<open>k\<close> spaces, at most eight, which are the spaces that \<open>dedent\<close> does
  not remove; for a question of one line \<open>k\<close> is zero, and the prompt is the template
  with the question in its place.
\<close>

theorem empty_context_prompt:
  "context_text [] = Inr [] \<and>
   (\<exists>k\<le>8. build_prompt [] q = join [NL]
      ([[]] @ map ((@) (replicate k SP)) instruction_lines @
       [[], replicate k SP @ u ''### Context'', [], [], replicate k SP @ u ''### Question''] @
       map (remove_margin (replicate (8 - k) SP))
         (map blank_whitespace_only (split_lines (ind8 @ q))) @
       [[], replicate k SP @ u ''### Answer'', []])) \<and>
   (NL \<notin> set q \<longrightarrow> build_prompt [] q = join [NL]
      ([[]] @ instruction_lines @
       [[], u ''### Context'', [], [], u ''### Question'', blank_whitespace_only q, [],
        u ''### Answer'', []]))"
proof -
  obtain j where j: "j \<le> 8" "body_margin [] q = Some (replicate j SP)"
    using body_margin_replicate by blast
  have d: "drop (length (replicate j SP)) ind8 = replicate (8 - j) SP"
    by (simp add: ind8_def)
  have s: "split_lines (ind8 @ []) = [ind8]" by (simp add: split_lines_no_NL ind8_eval)
  have b: "blank_whitespace_only ind8 = []"
    by (simp add: blank_whitespace_only_def list_all_ind8)
  have "build_prompt [] q = join [NL]
      ([[]] @ map ((@) (replicate (8 - j) SP)) instruction_lines @
       [[], replicate (8 - j) SP @ u ''### Context'', [], [], replicate (8 - j) SP @ u ''### Question''] @
       map (remove_margin (replicate j SP)) (map blank_whitespace_only (split_lines (ind8 @ q))) @
       [[], replicate (8 - j) SP @ u ''### Answer'', []])"
    unfolding build_prompt_lines[OF j(2)] d s by (simp add: b remove_margin_empty)
  moreover have "8 - (8 - j) = j"
    using j(1) by simp
  ultimately have 2: "\<exists>k\<le>8. build_prompt [] q = join [NL]
      ([[]] @ map ((@) (replicate k SP)) instruction_lines @
       [[], replicate k SP @ u ''### Context'', [], [], replicate k SP @ u ''### Question''] @
       map (remove_margin (replicate (8 - k) SP))
         (map blank_whitespace_only (split_lines (ind8 @ q))) @
       [[], replicate k SP @ u ''### Answer'', []])"
    by (intro exI[of _ "8 - j"] conjI) simp_all
  have 3: "build_prompt [] q = join [NL]
      ([[]] @ instruction_lines @
       [[], u ''### Context'', [], [], u ''### Question'', blank_whitespace_only q, [],
        u ''### Answer'', []])" if "NL \<notin> set q"
    using single_line_prompt[of "[]" q] that by (simp add: blank_Nil)
  show ?thesis using 2 3 by (simp add: context_text_Nil)
qed

text \<open>The example question of the specification, with no match found.\<close>

theorem empty_context_prompt_witness:
  "NL \<notin> set (u ''What is the max pressure for valve X?'') \<and>
   context_text [] = Inr [] \<and>
   build_prompt [] (u ''What is the max pressure for valve X?'') = join [NL]
     ([[]] @ instruction_lines @
      [[], u ''### Context'', [], [], u ''### Question'',
       u ''What is the max pressure for valve X?'', [], u ''### Answer'', []])"
proof -
  have n: "NL \<notin> set (u ''What is the max pressure for valve X?'')" by (simp add: NL_in_u)
  have b: "blank_whitespace_only (u ''What is the max pressure for valve X?'') =
      u ''What is the max pressure for valve X?''"
    by (simp add: blank_u is_indent_char_def)
  from empty_context_prompt [of "u ''What is the max pressure for valve X?''"] n b
  show ?thesis by (simp add: context_text_Nil)
qed

text \<open>
  C10. \<open>textwrap.dedent\<close> runs on the template after the context and the question are
  in it, so the white space of the prompt depends on the inserted text. When a line of
  the context or of the question other than its first is not empty and starts with a
  character that is neither space nor tab, the margin is empty: the template lines
  keep the eight spaces of the source, and only lines of spaces and tabs are emptied.
  A question with an indented line can lose that indentation: for \<open>"x\n  y"\<close> and an empty
  context the margin is two spaces, the prompt holds \<open>y\<close> at the first column, and the
  question is no substring of the prompt.
\<close>

theorem dedent_after_interpolation:
  "(list_ex (\<lambda>l. l \<noteq> [] \<and> \<not> is_indent_char (hd l)) (tl (split_lines ctx) @ tl (split_lines q)) \<longrightarrow>
      build_prompt ctx q = join [NL]
        ([[]] @ map ((@) ind8) instruction_lines @ [[], ind8 @ u ''### Context''] @
         map blank_whitespace_only (split_lines (ind8 @ ctx)) @ [[], ind8 @ u ''### Question''] @
         map blank_whitespace_only (split_lines (ind8 @ q)) @ [[], ind8 @ u ''### Answer'', []])) \<and>
   list_ex (prefix [SP]) (split_lines (u ''x'' @ [NL] @ u ''  y'')) \<and>
   build_prompt [] (u ''x'' @ [NL] @ u ''  y'') = join [NL]
     ([[]] @ map ((@) (u ''      '')) instruction_lines @
      [[], u ''      ### Context'', [], [], u ''      ### Question'', u ''      x'', u ''y'', [],
       u ''      ### Answer'', []]) \<and>
   \<not> sublist (u ''x'' @ [NL] @ u ''  y'') (build_prompt [] (u ''x'' @ [NL] @ u ''  y''))"
proof -
  have 1: "build_prompt ctx q = join [NL]
        ([[]] @ map ((@) ind8) instruction_lines @ [[], ind8 @ u ''### Context''] @
         map blank_whitespace_only (split_lines (ind8 @ ctx)) @ [[], ind8 @ u ''### Question''] @
         map blank_whitespace_only (split_lines (ind8 @ q)) @ [[], ind8 @ u ''### Answer'', []])"
    if "list_ex (\<lambda>l. l \<noteq> [] \<and> \<not> is_indent_char (hd l)) (tl (split_lines ctx) @ tl (split_lines q))"
    unfolding build_prompt_lines[OF flush_line_margin[OF that]]
    by (simp add: remove_margin_Nil)
  have r: "replicate 2 SP = [SP, SP]" by (simp add: numeral_eq_Suc)
  have s: "split_lines (ind8 @ u ''x'' @ [NL] @ u ''  y'') = [ind8 @ u ''x'', u ''  y'']"
    "split_lines (ind8 @ []) = [ind8]"
    by (simp_all add: ind8_eval u_def)
  have m: "body_margin [] (u ''x'' @ [NL] @ u ''  y'') = Some (replicate 2 SP)"
    unfolding body_margin_def s r
    by (simp add: ind8_eval u_def blank_whitespace_only_def is_indent_char_def indents_def)
  have d: "drop (length (replicate 2 SP)) ind8 = u ''      ''" by (simp add: ind8_eval u_def)
  have b: "map (remove_margin (replicate 2 SP)) (map blank_whitespace_only [ind8 @ u ''x'', u ''  y'']) = [u ''      x'', u ''y'']"
    "map (remove_margin (replicate 2 SP)) (map blank_whitespace_only [ind8]) = [[]]"
    unfolding r by (simp_all add: ind8_eval u_def blank_whitespace_only_def is_indent_char_def remove_margin_def)
  have 2: "build_prompt [] (u ''x'' @ [NL] @ u ''  y'') = join [NL]
     ([[]] @ map ((@) (u ''      '')) instruction_lines @
      [[], u ''      ### Context'', [], [], u ''      ### Question'', u ''      x'', u ''y'', [],
       u ''      ### Answer'', []])"
    unfolding build_prompt_lines[OF m] s d b by (simp add: u_append[symmetric])
  have 3: "\<not> sublist (u ''x'' @ [NL] @ u ''  y'') (build_prompt [] (u ''x'' @ [NL] @ u ''  y''))"
    unfolding 2 by (simp add: instruction_lines_def u_Cons u_Nil sublist_code(3))
  have 4: "list_ex (prefix [SP]) (split_lines (u ''x'' @ [NL] @ u ''  y''))"
    by (simp add: u_def)
  from 1 2 3 4 show ?thesis by blast
qed

text \<open>Two matches: the separator puts \<open>---\<close> at the first column of the text.\<close>

theorem dedent_after_interpolation_witness:
  "context_text [text_match (u ''A''), text_match (u ''B'')] =
     Inr (u ''A'' @ [NL, NL] @ u ''---'' @ [NL, NL] @ u ''B'') \<and>
   list_ex (\<lambda>l. l \<noteq> [] \<and> \<not> is_indent_char (hd l))
     (tl (split_lines (u ''A'' @ [NL, NL] @ u ''---'' @ [NL, NL] @ u ''B'')) @ tl (split_lines (u ''q''))) \<and>
   build_prompt (u ''A'' @ [NL, NL] @ u ''---'' @ [NL, NL] @ u ''B'') (u ''q'') = join [NL]
     ([[]] @ map ((@) ind8) instruction_lines @
      [[], ind8 @ u ''### Context'', ind8 @ u ''A'', [], u ''---'', [], u ''B'', [],
       ind8 @ u ''### Question'', ind8 @ u ''q'', [], ind8 @ u ''### Answer'', []])"
proof -
  have c: "context_text [text_match (u ''A''), text_match (u ''B'')] =
      Inr (u ''A'' @ [NL, NL] @ u ''---'' @ [NL, NL] @ u ''B'')"
    by (simp add: context_text_def py_join_def dict_get_def text_match_def context_separator_def)
  have h: "list_ex (\<lambda>l. l \<noteq> [] \<and> \<not> is_indent_char (hd l))
     (tl (split_lines (u ''A'' @ [NL, NL] @ u ''---'' @ [NL, NL] @ u ''B'')) @ tl (split_lines (u ''q'')))"
    by (simp add: u_def is_indent_char_def)
  have s: "map blank_whitespace_only (split_lines (ind8 @ u ''A'' @ [NL, NL] @ u ''---'' @ [NL, NL] @ u ''B'')) =
      [ind8 @ u ''A'', [], u ''---'', [], u ''B'']"
    "map blank_whitespace_only (split_lines (ind8 @ u ''q'')) = [ind8 @ u ''q'']"
    by (simp_all add: ind8_eval u_def blank_whitespace_only_def is_indent_char_def)
  from dedent_after_interpolation [of "u ''A'' @ [NL, NL] @ u ''---'' @ [NL, NL] @ u ''B''" "u ''q''"] h c
  show ?thesis unfolding s by auto
qed

text \<open>
  The first line of an inserted text stands behind the eight spaces of its template
  line. A context of the one line \<open>abc\<close> has a line without leading white space, and yet
  the whole template moves to the first column: no line of the prompt starts with eight
  spaces.
\<close>

theorem flush_first_line_counterexample:
  "context_text [text_match (u ''abc'')] = Inr (u ''abc'') \<and>
   list_ex (\<lambda>l. l \<noteq> [] \<and> \<not> is_indent_char (hd l)) (split_lines (u ''abc'')) \<and>
   build_prompt (u ''abc'') (u ''q'') = join [NL]
     ([[]] @ instruction_lines @
      [[], u ''### Context'', u ''abc'', [], u ''### Question'', u ''q'', [], u ''### Answer'', []]) \<and>
   \<not> list_ex (prefix ind8) (split_lines (build_prompt (u ''abc'') (u ''q'')))"
proof -
  have c: "context_text [text_match (u ''abc'')] = Inr (u ''abc'')"
    by (simp add: context_text_def py_join_def dict_get_def text_match_def)
  have 1: "list_ex (\<lambda>l. l \<noteq> [] \<and> \<not> is_indent_char (hd l)) (split_lines (u ''abc''))"
    by (simp add: u_def is_indent_char_def)
  have n: "NL \<notin> set (u ''abc'')" "NL \<notin> set (u ''q'')" by (simp_all add: NL_in_u)
  have b: "blank_whitespace_only (u ''abc'') = u ''abc''" "blank_whitespace_only (u ''q'') = u ''q''"
    by (simp_all add: blank_u is_indent_char_def)
  have 2: "build_prompt (u ''abc'') (u ''q'') = join [NL]
     ([[]] @ instruction_lines @
      [[], u ''### Context'', u ''abc'', [], u ''### Question'', u ''q'', [], u ''### Answer'', []])"
    unfolding single_line_prompt[OF n] b ..
  have f: "list_all (\<lambda>l. NL \<notin> set l) ([[]] @ instruction_lines @
      [[], u ''### Context'', u ''abc'', [], u ''### Question'', u ''q'', [], u ''### Answer'', []])"
    using tb_instr by (simp add: instruction_lines_def template_body_def NL_in_u)
  have sl: "split_lines (build_prompt (u ''abc'') (u ''q'')) = [[]] @ instruction_lines @
      [[], u ''### Context'', u ''abc'', [], u ''### Question'', u ''q'', [], u ''### Answer'', []]"
    unfolding 2 by (rule split_lines_join[OF _ f]) simp
  have 3: "\<not> list_ex (prefix ind8) (split_lines (build_prompt (u ''abc'') (u ''q'')))"
    unfolding sl by (simp add: instruction_lines_def u_Cons u_Nil ind8_eval)
  from c 1 2 3 show ?thesis by blast
qed

lemma blank_line_question_prompt:
  "build_prompt (u ''A'' @ [NL, NL] @ u ''---'' @ [NL, NL] @ u ''B'') (u ''a'' @ [NL, SP, NL] @ u ''b'') =
     join [NL]
       ([[]] @ map ((@) ind8) instruction_lines @
        [[], ind8 @ u ''### Context'', ind8 @ u ''A'', [], u ''---'', [], u ''B'', [],
         ind8 @ u ''### Question'', ind8 @ u ''a'', [], u ''b'', [], ind8 @ u ''### Answer'', []])"
proof -
  have h: "list_ex (\<lambda>l. l \<noteq> [] \<and> \<not> is_indent_char (hd l))
     (tl (split_lines (u ''A'' @ [NL, NL] @ u ''---'' @ [NL, NL] @ u ''B'')) @
      tl (split_lines (u ''a'' @ [NL, SP, NL] @ u ''b'')))"
    by (simp add: u_def is_indent_char_def)
  have s: "map blank_whitespace_only (split_lines (ind8 @ u ''A'' @ [NL, NL] @ u ''---'' @ [NL, NL] @ u ''B'')) =
      [ind8 @ u ''A'', [], u ''---'', [], u ''B'']"
    "map blank_whitespace_only (split_lines (ind8 @ u ''a'' @ [NL, SP, NL] @ u ''b'')) = [ind8 @ u ''a'', [], u ''b'']"
    by (simp_all add: ind8_eval u_def blank_whitespace_only_def is_indent_char_def)
  show ?thesis
    unfolding build_prompt_lines[OF flush_line_margin[OF h]] s
    by (simp add: remove_margin_Nil)
qed

text \<open>
  C3. The embedding call receives the question as it was passed to \<open>ask\<close>. The prompt
  of the generation call holds the question after \<open>dedent\<close>: with one match of one line
  and the question \<open>"Valve X:\n    max pressure?"\<close> the margin is four spaces, the second
  line of the question arrives without its indentation, and the question is no
  substring of the prompt. With two matches the margin is empty, and still a line of
  one space in the question \<open>"a\n \nb"\<close> arrives empty, so that this question is no
  substring of its prompt either.
\<close>

theorem indented_question_altered:
  "(\<exists>later. fst (ask P cfg question) = EmbedCall (EMBED_MODEL cfg) question # later) \<and>
   fst (ask (fake_providers (Inr [7]) (Inr [text_match (u ''Valve X rated to 150 psi'')])
               (Inr [Some (u ''150 psi'')]))
          test_config (u ''Valve X:'' @ [NL] @ u ''    max pressure?'')) =
     [EmbedCall (Some (VStr (u ''text-embedding-3-large''))) (u ''Valve X:'' @ [NL] @ u ''    max pressure?''),
      SearchCall 7 20 (Some (VStr (u ''v1''))) True,
      GenerateCall (u ''gpt-4o'')
        (join [NL]
          ([[]] @ map ((@) (u ''    '')) instruction_lines @
           [[], u ''    ### Context'', u ''    Valve X rated to 150 psi'', [],
            u ''    ### Question'', u ''    Valve X:'', u ''max pressure?'', [],
            u ''    ### Answer'', []])) 0] \<and>
   \<not> sublist (u ''Valve X:'' @ [NL] @ u ''    max pressure?'')
       (join [NL]
          ([[]] @ map ((@) (u ''    '')) instruction_lines @
           [[], u ''    ### Context'', u ''    Valve X rated to 150 psi'', [],
            u ''    ### Question'', u ''    Valve X:'', u ''max pressure?'', [],
            u ''    ### Answer'', []])) \<and>
   context_text [text_match (u ''A''), text_match (u ''B'')] =
     Inr (u ''A'' @ [NL, NL] @ u ''---'' @ [NL, NL] @ u ''B'') \<and>
   \<not> sublist (u ''a'' @ [NL, SP, NL] @ u ''b'')
       (build_prompt (u ''A'' @ [NL, NL] @ u ''---'' @ [NL, NL] @ u ''B'')
          (u ''a'' @ [NL, SP, NL] @ u ''b''))"
proof -
  let ?q = "u ''Valve X:'' @ [NL] @ u ''    max pressure?''"
  let ?c = "u ''Valve X rated to 150 psi''"
  have 1: "\<exists>later. fst (ask P cfg question) = EmbedCall (EMBED_MODEL cfg) question # later"
    by (simp add: ask_def Let_def split: sum.splits list.splits option.splits)
  have c: "context_text [text_match ?c] = Inr ?c"
    by (simp add: context_text_def py_join_def dict_get_def text_match_def)
  have c2: "context_text [text_match (u ''A''), text_match (u ''B'')] =
     Inr (u ''A'' @ [NL, NL] @ u ''---'' @ [NL, NL] @ u ''B'')"
    by (simp add: context_text_def py_join_def dict_get_def text_match_def context_separator_def)
  have r: "replicate 4 SP = [SP, SP, SP, SP]" by (simp add: numeral_eq_Suc)
  have n: "NL \<notin> set (ind8 @ ?c)" by (simp add: NL_in_u ind8_eval)
  have s: "split_lines (ind8 @ ?q) = [ind8 @ u ''Valve X:'', u ''    max pressure?'']"
    "split_lines (ind8 @ ?c) = [ind8 @ ?c]"
    using n by (simp_all add: ind8_eval u_Cons u_Nil split_lines_no_NL)
  have m: "body_margin ?c ?q = Some (replicate 4 SP)"
    unfolding body_margin_def s r
    by (simp add: ind8_eval u_Cons u_Nil blank_whitespace_only_def is_indent_char_def indents_def)
  have d: "drop (length (replicate 4 SP)) ind8 = u ''    ''" by (simp add: ind8_eval u_def)
  have b: "map (remove_margin (replicate 4 SP)) (map blank_whitespace_only [ind8 @ u ''Valve X:'', u ''    max pressure?'']) =
      [u ''    Valve X:'', u ''max pressure?'']"
    "map (remove_margin (replicate 4 SP)) (map blank_whitespace_only [ind8 @ ?c]) = [u ''    Valve X rated to 150 psi'']"
    unfolding r by (simp_all add: ind8_eval u_Cons u_Nil blank_whitespace_only_def is_indent_char_def remove_margin_def)
  have 2: "build_prompt ?c ?q = join [NL]
          ([[]] @ map ((@) (u ''    '')) instruction_lines @
           [[], u ''    ### Context'', u ''    Valve X rated to 150 psi'', [],
            u ''    ### Question'', u ''    Valve X:'', u ''max pressure?'', [],
            u ''    ### Answer'', []])"
    unfolding build_prompt_lines[OF m] s d b by (simp add: u_append[symmetric])
  have 3: "fst (ask (fake_providers (Inr [7]) (Inr [text_match ?c]) (Inr [Some (u ''150 psi'')])) test_config ?q) =
     [EmbedCall (Some (VStr (u ''text-embedding-3-large''))) ?q,
      SearchCall 7 20 (Some (VStr (u ''v1''))) True,
      GenerateCall (u ''gpt-4o'') (build_prompt ?c ?q) 0]"
    by (simp add: ask_def fake_providers_def test_config_def c)
  have 4: "\<not> sublist ?q (join [NL]
          ([[]] @ map ((@) (u ''    '')) instruction_lines @
           [[], u ''    ### Context'', u ''    Valve X rated to 150 psi'', [],
            u ''    ### Question'', u ''    Valve X:'', u ''max pressure?'', [],
            u ''    ### Answer'', []]))"
    by (simp add: instruction_lines_def u_Cons u_Nil sublist_code(3))
  have 5: "\<not> sublist (u ''a'' @ [NL, SP, NL] @ u ''b'')
       (build_prompt (u ''A'' @ [NL, NL] @ u ''---'' @ [NL, NL] @ u ''B'')
          (u ''a'' @ [NL, SP, NL] @ u ''b''))"
    unfolding blank_line_question_prompt
    by (simp add: instruction_lines_def u_Cons u_Nil ind8_eval sublist_code(3))
  from 1 3 4 5 c2 show ?thesis unfolding 2 by blast
qed

section \<open>Configuration and startup\<close>

lemma resolve_fallback:
  "secrets src = Some file \<Longrightarrow>
   resolve src k dflt = Inr (spec_fallback (file k) (environ src k) dflt)"
  by (simp add: resolve_def secrets_get_def getenv_def spec_fallback_def split: option.splits)

lemma resolve_no_file: "secrets src = None \<Longrightarrow> resolve src k dflt = Inl SecretNotFoundError"
  by (simp add: resolve_def secrets_get_def)

lemma load_config_no_file: "secrets src = None \<Longrightarrow> load_config int_str src = Inl SecretNotFoundError"
  by (simp add: load_config_def resolve_no_file)

text \<open>
  C4. With a secrets file in place, every configuration field is resolved by the chain
  secret store, environment variable, default, with the defaults \<open>aquestia\<close>, \<open>v1\<close>,
  \<open>text-embedding-3-large\<close> and \<open>20\<close> (the two API keys have none). The resolved top-K
  value is passed through \<open>int\<close>: the configuration exists exactly when \<open>int\<close> returns,
  and \<open>TOP_K\<close> is the integer it returns, of either sign; an integer value is taken as
  it is.
\<close>

theorem config_fallback_chain:
  assumes "secrets src = Some file"
  shows
  "(case load_config int_str src of
      Inl e \<Rightarrow>
        py_int int_str (spec_fallback (file (u ''TOP_K'')) (environ src (u ''TOP_K'')) (Some (VInt 20))) = Inl e
    | Inr cfg \<Rightarrow>
        PINECONE_API_KEY cfg =
          spec_fallback (file (u ''PINECONE_API_KEY'')) (environ src (u ''PINECONE_API_KEY'')) None \<and>
        OPENAI_API_KEY cfg =
          spec_fallback (file (u ''OPENAI_API_KEY'')) (environ src (u ''OPENAI_API_KEY'')) None \<and>
        INDEX_NAME cfg =
          spec_fallback (file (u ''INDEX_NAME'')) (environ src (u ''INDEX_NAME''))
            (Some (VStr (u ''aquestia''))) \<and>
        NAMESPACE cfg =
          spec_fallback (file (u ''NAMESPACE'')) (environ src (u ''NAMESPACE''))
            (Some (VStr (u ''v1''))) \<and>
        EMBED_MODEL cfg =
          spec_fallback (file (u ''EMBED_MODEL'')) (environ src (u ''EMBED_MODEL''))
            (Some (VStr (u ''text-embedding-3-large''))) \<and>
        py_int int_str (spec_fallback (file (u ''TOP_K'')) (environ src (u ''TOP_K'')) (Some (VInt 20)))
          = Inr (TOP_K cfg)) \<and>
   py_int int_str (Some (VInt i)) = Inr i"
  by (simp add: load_config_def resolve_fallback[OF assms] split: sum.splits)

text \<open>
  A namespace in both stores, an index name in the environment only, a top-K in the
  secrets file only.
\<close>

theorem config_fallback_chain_witness:
  "secrets \<lparr> secrets = Some [u ''NAMESPACE'' \<mapsto> VStr (u ''v2''), u ''TOP_K'' \<mapsto> VInt 5],
             environ = [u ''NAMESPACE'' \<mapsto> u ''v3'', u ''INDEX_NAME'' \<mapsto> u ''pipes''] \<rparr> =
     Some [u ''NAMESPACE'' \<mapsto> VStr (u ''v2''), u ''TOP_K'' \<mapsto> VInt 5] \<and>
   load_config no_int_str
     \<lparr> secrets = Some [u ''NAMESPACE'' \<mapsto> VStr (u ''v2''), u ''TOP_K'' \<mapsto> VInt 5],
       environ = [u ''NAMESPACE'' \<mapsto> u ''v3'', u ''INDEX_NAME'' \<mapsto> u ''pipes''] \<rparr> =
     Inr \<lparr> PINECONE_API_KEY = None, OPENAI_API_KEY = None,
           INDEX_NAME = Some (VStr (u ''pipes'')), NAMESPACE = Some (VStr (u ''v2'')),
           EMBED_MODEL = Some (VStr (u ''text-embedding-3-large'')), TOP_K = 5 \<rparr>"
proof -
  let ?file = "[u ''NAMESPACE'' \<mapsto> VStr (u ''v2''), u ''TOP_K'' \<mapsto> VInt 5]"
  let ?src = "\<lparr> secrets = Some ?file,
       environ = [u ''NAMESPACE'' \<mapsto> u ''v3'', u ''INDEX_NAME'' \<mapsto> u ''pipes''] \<rparr>"
  have h: "secrets ?src = Some ?file"
    by simp
  from config_fallback_chain [OF h, of no_int_str] h show ?thesis
    by (simp add: load_config_def resolve_def secrets_get_def getenv_def spec_fallback_def u_def)
qed

text \<open>With \<open>TOP_K = -3\<close> in the secrets file the configuration is loaded with \<open>TOP_K = -3\<close>.\<close>

theorem top_k_not_positive_counterexample:
  "load_config no_int_str \<lparr> secrets = Some [u ''TOP_K'' \<mapsto> VInt (- 3)], environ = Map.empty \<rparr> =
     Inr \<lparr> PINECONE_API_KEY = None, OPENAI_API_KEY = None,
           INDEX_NAME = Some (VStr (u ''aquestia'')), NAMESPACE = Some (VStr (u ''v1'')),
           EMBED_MODEL = Some (VStr (u ''text-embedding-3-large'')), TOP_K = - 3 \<rparr>"
  by (simp add: load_config_def resolve_def secrets_get_def getenv_def u_def)

text \<open>
  C5. When one of the two API keys is absent (or empty) after resolution, the script
  halts before it constructs a client: no \<open>Pinecone\<close>, \<open>Index\<close> or \<open>OpenAI\<close> object is
  made. It halts with the message of \<open>st.error\<close> followed by \<open>st.stop()\<close>; the one other
  way is that a line above the check has already raised (\<open>int\<close> on the top-K value, or
  the first read of \<open>st.secrets\<close> when there is no secrets file), which ends the run
  with that exception and no call at all.
\<close>

theorem missing_key_halts_before_clients:
  assumes "\<not> key_present (resolve src (u ''PINECONE_API_KEY'') None) \<or>
           \<not> key_present (resolve src (u ''OPENAI_API_KEY'') None)"
  shows "\<not> list_ex is_client_construction (fst (startup int_str src)) \<and>
         (startup int_str src = ([StError missing_keys_message, StStop], Inl Stopped) \<or>
          (\<exists>e. load_config int_str src = Inl e \<and> startup int_str src = ([], Inl (Uncaught e))))"
proof (cases "load_config int_str src")
  case (Inl e)
  then show ?thesis by (simp add: startup_def)
next
  case (Inr cfg)
  then have "resolve src (u ''PINECONE_API_KEY'') None = Inr (PINECONE_API_KEY cfg)"
    and "resolve src (u ''OPENAI_API_KEY'') None = Inr (OPENAI_API_KEY cfg)"
    by (auto simp: load_config_def split: sum.splits)
  with assms Inr show ?thesis by (auto simp: startup_def key_present_def)
qed

text \<open>Only the Pinecone key is configured.\<close>

theorem missing_key_halts_before_clients_witness:
  "\<not> key_present (resolve \<lparr> secrets = Some [u ''PINECONE_API_KEY'' \<mapsto> VStr (u ''pc'')], environ = Map.empty \<rparr>
       (u ''OPENAI_API_KEY'') None) \<and>
   startup no_int_str \<lparr> secrets = Some [u ''PINECONE_API_KEY'' \<mapsto> VStr (u ''pc'')], environ = Map.empty \<rparr> =
     ([StError missing_keys_message, StStop], Inl Stopped)"
proof -
  let ?src = "\<lparr> secrets = Some [u ''PINECONE_API_KEY'' \<mapsto> VStr (u ''pc'')], environ = Map.empty \<rparr>"
  have h: "\<not> key_present (resolve ?src (u ''OPENAI_API_KEY'') None)"
    by (simp add: key_present_def resolve_def secrets_get_def getenv_def u_def)
  have l: "\<forall>e. load_config no_int_str ?src \<noteq> Inl e"
    by (simp add: load_config_def resolve_def secrets_get_def getenv_def u_def)
  from missing_key_halts_before_clients [of ?src no_int_str] h l show ?thesis by blast
qed

section \<open>The calls of \<open>ask\<close>\<close>

lemma ask_three_calls:
  assumes "embeddings_create P (EMBED_MODEL cfg) question = Inr (q_vec # rest)"
      and "index_query P q_vec (TOP_K cfg) (NAMESPACE cfg) True = Inr matches"
      and "list_all text_is_str matches"
  shows "fst (ask P cfg question) =
           [EmbedCall (EMBED_MODEL cfg) question,
            SearchCall q_vec (TOP_K cfg) (NAMESPACE cfg) True,
            GenerateCall (u ''gpt-4o'')
              (build_prompt (spec_context_block (map match_text matches)) question) 0]"
  using assms(1,2) context_text_texts[OF assms(3)]
  by (simp add: ask_def Let_def join_spec_context_block split: sum.splits list.splits option.splits)

lemma ask_three_calls_only_if:
  assumes "length (fst (ask P cfg question)) = 3"
  shows "\<exists>q_vec rest matches.
           embeddings_create P (EMBED_MODEL cfg) question = Inr (q_vec # rest) \<and>
           index_query P q_vec (TOP_K cfg) (NAMESPACE cfg) True = Inr matches \<and>
           list_all text_is_str matches"
proof -
  from assms obtain q_vec rest where e: "embeddings_create P (EMBED_MODEL cfg) question = Inr (q_vec # rest)"
    by (auto simp: ask_def Let_def split: sum.splits list.splits)
  with assms obtain matches where s: "index_query P q_vec (TOP_K cfg) (NAMESPACE cfg) True = Inr matches"
    by (auto simp: ask_def Let_def split: sum.splits list.splits)
  with assms e obtain ctx where "context_text matches = Inr ctx"
    by (auto simp: ask_def Let_def split: sum.splits list.splits)
  then have "list_all text_is_str matches" by (rule context_text_Inr)
  with e s show ?thesis by blast
qed

text \<open>
  C1. When the embedding call returns an embedding, the search call returns, and every
  match it returns carries a metadata mapping whose \<open>text\<close> value, when there is one, is
  a string, \<open>ask\<close> makes exactly three calls, in this order: the embedding call on the
  question, the search call on the vector that the embedding call returned, and the
  generation call on the prompt built from the texts of the matches that the search
  returned. Nothing is skipped when the search returns no match: the matches may be any
  such list, the empty one too. These conditions are the only ones: \<open>ask\<close> never makes
  more than three calls, and it makes three exactly when they hold.
\<close>

theorem ask_calls_in_order:
  "(embeddings_create P (EMBED_MODEL cfg) question = Inr (q_vec # rest) \<and>
    index_query P q_vec (TOP_K cfg) (NAMESPACE cfg) True = Inr matches \<and>
    list_all text_is_str matches \<longrightarrow>
      fst (ask P cfg question) =
        [EmbedCall (EMBED_MODEL cfg) question,
         SearchCall q_vec (TOP_K cfg) (NAMESPACE cfg) True,
         GenerateCall (u ''gpt-4o'')
           (build_prompt (spec_context_block (map match_text matches)) question) 0]) \<and>
   (length (fst (ask P cfg question)) = 3 \<longleftrightarrow>
      (\<exists>v vs ms. embeddings_create P (EMBED_MODEL cfg) question = Inr (v # vs) \<and>
                 index_query P v (TOP_K cfg) (NAMESPACE cfg) True = Inr ms \<and>
                 list_all text_is_str ms)) \<and>
   length (fst (ask P cfg question)) \<le> 3"
proof -
  have 1: "length (fst (ask P cfg question)) \<le> 3"
    by (simp add: ask_def Let_def split: sum.splits list.splits option.splits)
  have 2: "length (fst (ask P cfg question)) = 3"
    if "\<exists>v vs ms. embeddings_create P (EMBED_MODEL cfg) question = Inr (v # vs) \<and>
                 index_query P v (TOP_K cfg) (NAMESPACE cfg) True = Inr ms \<and>
                 list_all text_is_str ms"
    using that ask_three_calls[of P cfg question] by fastforce
  from 1 2 ask_three_calls[of P cfg question q_vec rest matches] ask_three_calls_only_if[of P cfg question]
  show ?thesis by blast
qed

text \<open>A search without matches: the generation call is made on the prompt of the empty context.\<close>

theorem ask_calls_in_order_witness:
  "embeddings_create (fake_providers (Inr [7]) (Inr []) (Inr [Some (u ''I do not know.'')]))
     (EMBED_MODEL test_config) (u ''q'') = Inr (7 # []) \<and>
   index_query (fake_providers (Inr [7]) (Inr []) (Inr [Some (u ''I do not know.'')]))
     7 (TOP_K test_config) (NAMESPACE test_config) True = Inr [] \<and>
   list_all text_is_str [] \<and>
   fst (ask (fake_providers (Inr [7]) (Inr []) (Inr [Some (u ''I do not know.'')])) test_config (u ''q'')) =
     [EmbedCall (Some (VStr (u ''text-embedding-3-large''))) (u ''q''),
      SearchCall 7 20 (Some (VStr (u ''v1''))) True,
      GenerateCall (u ''gpt-4o'') (build_prompt [] (u ''q'')) 0]"
proof -
  let ?P = "fake_providers (Inr [7]) (Inr []) (Inr [Some (u ''I do not know.'')])"
  have 1: "embeddings_create ?P (EMBED_MODEL test_config) (u ''q'') = Inr (7 # [])"
    by (simp add: fake_providers_def)
  have 2: "index_query ?P 7 (TOP_K test_config) (NAMESPACE test_config) True = Inr []"
    by (simp add: fake_providers_def)
  from ask_calls_in_order [of ?P test_config "u ''q''" 7 "[]" "[]"] 1 2 show ?thesis
    by (simp add: test_config_def)
qed

text \<open>An embedding call that raises is the only call of \<open>ask\<close>, for a question that is not blank.\<close>

theorem ask_stops_at_failed_call_counterexample:
  "strip (u ''q'') \<noteq> [] \<and>
   fst (ask (fake_providers (Inl (ProviderError (u ''quota''))) (Inr []) (Inr [])) test_config (u ''q'')) =
     [EmbedCall (Some (VStr (u ''text-embedding-3-large''))) (u ''q'')]"
  by (simp add: ask_def fake_providers_def test_config_def strip_def isspace_def u_def)

section \<open>The page\<close>


lemma debug_panel_quiet:
  "\<not> list_ex is_call (fst (debug_panel cfg)) \<and> \<not> list_ex is_error_box (fst (debug_panel cfg))"
  by (simp add: debug_panel_def)






end
